theory Spec2Isabelle
  imports Complex_Main "HOL-Library.Multiset"
begin

section \<open>JavaScript values used by the analytics layer\<close>

text \<open>
  The analytics functions of \<^verbatim>\<open>src/utils/analytics.ts\<close> compute with JavaScript
  numbers. A number is modelled as a finite real, one of the two infinities, or NaN.
  Finite arithmetic is exact: rounding to binary64, overflow of finite values and the
  sign of zero are not modelled. NaN and the infinities follow IEEE 754 as ECMAScript
  prescribes, because the code branches on them (\<^verbatim>\<open>Number.isFinite\<close>, \<^verbatim>\<open>||\<close>, comparisons).
  Two places depart from exact arithmetic, because there the result of the code depends
  on it: \<open>parseInt10\<close> returns an infinity for a digit string beyond the finite numbers,
  and the anomaly detector is also given with the rounding of every operation left open
  (\<open>detectAnomaliesFrom\<close>).
\<close>

datatype jsnum = Fin real | PInf | NInf | NaN

text \<open>\<^verbatim>\<open>Number.isFinite(x)\<close>\<close>

fun isFinite :: "jsnum \<Rightarrow> bool" where
  "isFinite (Fin a) = True"
| "isFinite PInf = False"
| "isFinite NInf = False"
| "isFinite NaN = False"

text \<open>Truthiness of a number: \<^verbatim>\<open>0\<close> and \<^verbatim>\<open>NaN\<close> are falsy.\<close>

fun truthy :: "jsnum \<Rightarrow> bool" where
  "truthy (Fin a) = (a \<noteq> 0)"
| "truthy PInf = True"
| "truthy NInf = True"
| "truthy NaN = False"

fun jneg :: "jsnum \<Rightarrow> jsnum" where
  "jneg (Fin a) = Fin (- a)"
| "jneg PInf = NInf"
| "jneg NInf = PInf"
| "jneg NaN = NaN"

text \<open>\<^verbatim>\<open>a + b\<close>\<close>

fun jadd :: "jsnum \<Rightarrow> jsnum \<Rightarrow> jsnum" where
  "jadd (Fin a) (Fin b) = Fin (a + b)"
| "jadd NaN b = NaN"
| "jadd a NaN = NaN"
| "jadd PInf NInf = NaN"
| "jadd NInf PInf = NaN"
| "jadd PInf b = PInf"
| "jadd a PInf = PInf"
| "jadd NInf b = NInf"
| "jadd a NInf = NInf"

text \<open>\<^verbatim>\<open>a - b\<close>\<close>

definition jsub :: "jsnum \<Rightarrow> jsnum \<Rightarrow> jsnum" where
  "jsub a b = jadd a (jneg b)"

text \<open>The infinity of the sign of a finite non-zero factor.\<close>

definition infOfSign :: "real \<Rightarrow> jsnum" where
  "infOfSign a = (if a = 0 then NaN else if 0 < a then PInf else NInf)"

text \<open>\<^verbatim>\<open>a * b\<close>\<close>

fun jmul :: "jsnum \<Rightarrow> jsnum \<Rightarrow> jsnum" where
  "jmul (Fin a) (Fin b) = Fin (a * b)"
| "jmul NaN b = NaN"
| "jmul a NaN = NaN"
| "jmul (Fin a) PInf = infOfSign a"
| "jmul (Fin a) NInf = infOfSign (- a)"
| "jmul PInf (Fin b) = infOfSign b"
| "jmul NInf (Fin b) = infOfSign (- b)"
| "jmul PInf PInf = PInf"
| "jmul PInf NInf = NInf"
| "jmul NInf PInf = NInf"
| "jmul NInf NInf = PInf"

text \<open>\<^verbatim>\<open>a / b\<close>; a zero divisor is taken as positive zero.\<close>

fun jdiv :: "jsnum \<Rightarrow> jsnum \<Rightarrow> jsnum" where
  "jdiv (Fin a) (Fin b) = (if b = 0 then infOfSign a else Fin (a / b))"
| "jdiv NaN b = NaN"
| "jdiv a NaN = NaN"
| "jdiv (Fin a) PInf = Fin 0"
| "jdiv (Fin a) NInf = Fin 0"
| "jdiv PInf (Fin b) = (if 0 \<le> b then PInf else NInf)"
| "jdiv NInf (Fin b) = (if 0 \<le> b then NInf else PInf)"
| "jdiv PInf PInf = NaN"
| "jdiv PInf NInf = NaN"
| "jdiv NInf PInf = NaN"
| "jdiv NInf NInf = NaN"

text \<open>\<^verbatim>\<open>a < b\<close>: false as soon as one side is NaN.\<close>

fun jlt :: "jsnum \<Rightarrow> jsnum \<Rightarrow> bool" where
  "jlt (Fin a) (Fin b) = (a < b)"
| "jlt NaN b = False"
| "jlt a NaN = False"
| "jlt PInf b = False"
| "jlt a NInf = False"
| "jlt NInf b = True"
| "jlt a PInf = True"

text \<open>\<^verbatim>\<open>a <= b\<close>\<close>

fun jle :: "jsnum \<Rightarrow> jsnum \<Rightarrow> bool" where
  "jle (Fin a) (Fin b) = (a \<le> b)"
| "jle NaN b = False"
| "jle a NaN = False"
| "jle NInf b = True"
| "jle a PInf = True"
| "jle PInf b = False"
| "jle a NInf = False"

text \<open>\<^verbatim>\<open>a > b\<close> and \<^verbatim>\<open>a >= b\<close>\<close>

definition jgt :: "jsnum \<Rightarrow> jsnum \<Rightarrow> bool" where
  "jgt a b = jlt b a"

definition jge :: "jsnum \<Rightarrow> jsnum \<Rightarrow> bool" where
  "jge a b = jle b a"

text \<open>\<^verbatim>\<open>a !== b\<close> on numbers: NaN differs from everything, itself included.\<close>

definition strictNe :: "jsnum \<Rightarrow> jsnum \<Rightarrow> bool" where
  "strictNe a b = (a = NaN \<or> b = NaN \<or> a \<noteq> b)"

text \<open>
  \<^verbatim>\<open>Math.max(...args)\<close> and \<^verbatim>\<open>Math.min(...args)\<close>: \<^verbatim>\<open>-Infinity\<close> and
  \<^verbatim>\<open>Infinity\<close> for no argument, NaN as soon as one argument is NaN.
\<close>

definition max2 :: "jsnum \<Rightarrow> jsnum \<Rightarrow> jsnum" where
  "max2 a b = (if a = NaN \<or> b = NaN then NaN else if jlt a b then b else a)"

definition min2 :: "jsnum \<Rightarrow> jsnum \<Rightarrow> jsnum" where
  "min2 a b = (if a = NaN \<or> b = NaN then NaN else if jlt b a then b else a)"

definition mathMax :: "jsnum list \<Rightarrow> jsnum" where
  "mathMax xs = foldl max2 NInf xs"

definition mathMin :: "jsnum list \<Rightarrow> jsnum" where
  "mathMin xs = foldl min2 PInf xs"

text \<open>\<^verbatim>\<open>Math.sqrt(x)\<close>\<close>

fun mathSqrt :: "jsnum \<Rightarrow> jsnum" where
  "mathSqrt (Fin a) = (if a < 0 then NaN else Fin (sqrt a))"
| "mathSqrt PInf = PInf"
| "mathSqrt NInf = NaN"
| "mathSqrt NaN = NaN"

text \<open>The number of an array length or of a count.\<close>

definition num :: "nat \<Rightarrow> jsnum" where
  "num n = Fin (real n)"

subsection \<open>Strings: \<^verbatim>\<open>parseInt(s, 10)\<close> and \<^verbatim>\<open>new Date(s).getTime()\<close>\<close>

text \<open>
  A string is a list of code units below 256. \<^verbatim>\<open>parseInt(s, 10)\<close> skips leading white
  space, reads an optional sign and the longest run of decimal digits, and is NaN when
  that run is empty.
\<close>

definition isDigit :: "char \<Rightarrow> bool" where
  "isDigit c = (48 \<le> (of_char c :: nat) \<and> (of_char c :: nat) \<le> 57)"

definition isWhite :: "char \<Rightarrow> bool" where
  "isWhite c = ((of_char c :: nat) \<in> {9, 10, 11, 12, 13, 32, 160})"

definition decimalValue :: "string \<Rightarrow> nat" where
  "decimalValue ds = foldl (\<lambda>acc c. 10 * acc + ((of_char c :: nat) - 48)) 0 ds"

text \<open>
  The integer read is converted to a number: from \<open>2^1024 - 2^970\<close> on, the nearest
  binary64 value is an infinity. (An engine may replace the digits after the 20th by
  zeros, which moves this bound by less than one part in \<open>10^19\<close>.)
\<close>

definition overflowBound :: nat where
  "overflowBound = 2 ^ 1024 - 2 ^ 970"

definition parseInt10 :: "string \<Rightarrow> jsnum" where
  "parseInt10 s =
    (let t = dropWhile isWhite s;
         neg = (t \<noteq> [] \<and> hd t = CHR ''-'');
         u = (if t \<noteq> [] \<and> (hd t = CHR ''-'' \<or> hd t = CHR ''+'') then tl t else t);
         ds = takeWhile isDigit u
     in if ds = [] then NaN
        else if overflowBound \<le> decimalValue ds then (if neg then NInf else PInf)
        else if neg then Fin (- real (decimalValue ds)) else Fin (real (decimalValue ds)))"

text \<open>
  \<^verbatim>\<open>new Date(s).getTime()\<close> is the time value in milliseconds, an integer, or NaN
  for an invalid date. Which strings parse is left to the engine beyond the ISO format
  of ECMAScript, so the parser is a parameter \<open>parseDate\<close> of every function below:
  \<open>None\<close> stands for an invalid date.
\<close>

type_synonym dateParser = "string \<Rightarrow> int option"

definition getTime :: "dateParser \<Rightarrow> string \<Rightarrow> jsnum" where
  "getTime parseDate s = (case parseDate s of None \<Rightarrow> NaN | Some t \<Rightarrow> Fin (of_int t))"

text \<open>
  One such parser, for concrete inputs: the format \<^verbatim>\<open>YYYY-MM-DDTHH:mm:ss.sssZ\<close> that
  every engine must accept, with the day arithmetic of ECMAScript (\<^verbatim>\<open>DayFromYear\<close>,
  \<^verbatim>\<open>MakeDay\<close>, \<^verbatim>\<open>MakeTime\<close>). Everything else is an invalid date here.
\<close>

definition dayFromYear :: "int \<Rightarrow> int" where
  "dayFromYear y =
     365 * (y - 1970) + (y - 1969) div 4 - (y - 1901) div 100 + (y - 1601) div 400"

definition inLeapYear :: "int \<Rightarrow> bool" where
  "inLeapYear y = (y mod 4 = 0 \<and> (y mod 100 \<noteq> 0 \<or> y mod 400 = 0))"

definition daysInMonth :: "int \<Rightarrow> nat \<Rightarrow> nat" where
  "daysInMonth y m =
     (if m = 2 then (if inLeapYear y then 29 else 28)
      else if m \<in> {4, 6, 9, 11} then 30 else 31)"

definition daysBeforeMonth :: "int \<Rightarrow> nat \<Rightarrow> nat" where
  "daysBeforeMonth y m = sum_list (map (daysInMonth y) [1..<m])"

definition field :: "string \<Rightarrow> nat \<Rightarrow> nat \<Rightarrow> string" where
  "field s i n = take n (drop i s)"

definition isoDate :: dateParser where
  "isoDate s =
    (if length s = 24
        \<and> list_all isDigit (field s 0 4) \<and> s ! 4 = CHR ''-''
        \<and> list_all isDigit (field s 5 2) \<and> s ! 7 = CHR ''-''
        \<and> list_all isDigit (field s 8 2) \<and> s ! 10 = CHR ''T''
        \<and> list_all isDigit (field s 11 2) \<and> s ! 13 = CHR '':''
        \<and> list_all isDigit (field s 14 2) \<and> s ! 16 = CHR '':''
        \<and> list_all isDigit (field s 17 2) \<and> s ! 19 = CHR ''.''
        \<and> list_all isDigit (field s 20 3) \<and> s ! 23 = CHR ''Z''
     then
       (let y = int (decimalValue (field s 0 4));
            m = decimalValue (field s 5 2);
            d = decimalValue (field s 8 2);
            hh = decimalValue (field s 11 2);
            mi = decimalValue (field s 14 2);
            ss = decimalValue (field s 17 2);
            ms = decimalValue (field s 20 3)
        in if 1 \<le> m \<and> m \<le> 12 \<and> 1 \<le> d \<and> d \<le> daysInMonth y m
              \<and> hh \<le> 23 \<and> mi \<le> 59 \<and> ss \<le> 59
           then Some ((dayFromYear y + int (daysBeforeMonth y m) + int d - 1) * 86400000
                      + int (hh * 3600000 + mi * 60000 + ss * 1000 + ms))
           else None)
     else None)"

section \<open>Job records\<close>

text \<open>The interface \<^verbatim>\<open>Job\<close> of \<^verbatim>\<open>src/utils/loadJobs.ts\<close>; \<^verbatim>\<open>null\<close> is \<open>None\<close>.\<close>

datatype jobStatus = RUNNING | QUEUED | COMPLETED | FAILED

record Job =
  job_id :: string
  job_name :: string
  backend :: string
  backend_type :: string
  status :: jobStatus
  creation_time :: string
  end_time :: "string option"
  execution_time :: "string option"
  shots :: jsnum
  provider :: string
  target :: string

text \<open>The interface \<^verbatim>\<open>JobDurations\<close>; the fields copied from the job carry the prefix \<open>d_\<close>.\<close>

record JobDurations =
  d_job_id :: string
  d_backend :: string
  d_backend_type :: string
  d_status :: jobStatus
  queueSec :: jsnum
  execSec :: jsnum

section \<open>The duration estimator: \<^verbatim>\<open>computeDurations\<close>\<close>

text \<open>\<^verbatim>\<open>j.backend || 'Unknown'\<close>\<close>

definition backendOf :: "Job \<Rightarrow> string" where
  "backendOf j = (if backend j \<noteq> [] then backend j else ''Unknown'')"

text \<open>The body of the \<^verbatim>\<open>map\<close> callback.\<close>

definition durationOf :: "dateParser \<Rightarrow> Job \<Rightarrow> JobDurations" where
  "durationOf parseDate j =
    (let startMs = getTime parseDate (creation_time j);
         endMs = (case end_time j of
                    None \<Rightarrow> NaN
                  | Some s \<Rightarrow> if s \<noteq> [] then getTime parseDate s else NaN);
         execMs = (case execution_time j of
                    None \<Rightarrow> NaN
                  | Some s \<Rightarrow> if s \<noteq> [] then parseInt10 s else NaN);
         execSec = (if isFinite execMs \<and> jge execMs (Fin 0) then jdiv execMs (Fin 1000)
                    else if isFinite endMs
                         then mathMax [Fin 0, jdiv (jsub endMs startMs) (Fin 1000)]
                         else Fin 0);
         turnaroundSec = (if isFinite endMs
                          then mathMax [Fin 0, jdiv (jsub endMs startMs) (Fin 1000)]
                          else execSec);
         queueSec = mathMax [Fin 0, jsub turnaroundSec execSec]
     in \<lparr> d_job_id = job_id j, d_backend = backendOf j, d_backend_type = backend_type j,
          d_status = status j, queueSec = queueSec, execSec = execSec \<rparr>)"

definition computeDurations :: "dateParser \<Rightarrow> Job list \<Rightarrow> JobDurations list" where
  "computeDurations parseDate jobs =
     map (durationOf parseDate) (filter (\<lambda>j. creation_time j \<noteq> []) jobs)"

text \<open>A job with the fields the analytics layer reads; the others are empty.\<close>

definition mkJob ::
  "string \<Rightarrow> string \<Rightarrow> jobStatus \<Rightarrow> string \<Rightarrow> string option \<Rightarrow> string option \<Rightarrow> Job" where
  "mkJob i b st ct et xt =
     \<lparr> job_id = i, job_name = [], backend = b, backend_type = [], status = st,
       creation_time = ct, end_time = et, execution_time = xt, shots = Fin 0,
       provider = [], target = b \<rparr>"

text \<open>
  The estimator as the specification words it: \<open>endMs\<close> and \<open>execMs\<close> are either a valid
  value or undefined (\<open>None\<close>); \<open>startMs\<close> is whatever the date parser returns.
\<close>

definition specEndMs :: "dateParser \<Rightarrow> Job \<Rightarrow> int option" where
  "specEndMs parseDate j =
     (case end_time j of None \<Rightarrow> None | Some s \<Rightarrow> if s = [] then None else parseDate s)"

definition specExecMs :: "Job \<Rightarrow> real option" where
  "specExecMs j =
     (case execution_time j of
        None \<Rightarrow> None
      | Some s \<Rightarrow>
          if s = [] then None
          else (case parseInt10 s of
                  Fin v \<Rightarrow> if 0 \<le> v then Some v else None
                | PInf \<Rightarrow> None | NInf \<Rightarrow> None | NaN \<Rightarrow> None))"

definition specSpanSec :: "dateParser \<Rightarrow> Job \<Rightarrow> int \<Rightarrow> jsnum" where
  "specSpanSec parseDate j e =
     mathMax [Fin 0, jdiv (jsub (Fin (of_int e)) (getTime parseDate (creation_time j))) (Fin 1000)]"

definition specExecSec :: "dateParser \<Rightarrow> Job \<Rightarrow> jsnum" where
  "specExecSec parseDate j =
     (case specExecMs j of
        Some v \<Rightarrow> Fin (v / 1000)
      | None \<Rightarrow>
          (case specEndMs parseDate j of
             Some e \<Rightarrow> specSpanSec parseDate j e
           | None \<Rightarrow> Fin 0))"

definition specTurnaroundSec :: "dateParser \<Rightarrow> Job \<Rightarrow> jsnum" where
  "specTurnaroundSec parseDate j =
     (case specEndMs parseDate j of
        Some e \<Rightarrow> specSpanSec parseDate j e
      | None \<Rightarrow> specExecSec parseDate j)"

definition specQueueSec :: "dateParser \<Rightarrow> Job \<Rightarrow> jsnum" where
  "specQueueSec parseDate j =
     mathMax [Fin 0, jsub (specTurnaroundSec parseDate j) (specExecSec parseDate j)]"

definition specDuration :: "dateParser \<Rightarrow> Job \<Rightarrow> JobDurations" where
  "specDuration parseDate j =
     \<lparr> d_job_id = job_id j, d_backend = backendOf j, d_backend_type = backend_type j,
       d_status = status j, queueSec = specQueueSec parseDate j,
       execSec = specExecSec parseDate j \<rparr>"

section \<open>Arrays, sets and objects\<close>

text \<open>
  \<^verbatim>\<open>Array.prototype.sort(cmp)\<close>: an element moves behind another only when the
  comparator's value is greater than zero (NaN counts as zero). The sort is stable. For a
  comparator that is not a consistent ordering (one that returns NaN) ECMAScript leaves
  the order to the engine; the model then has the order of this insertion sort, which
  engines need not share. The general properties below use the order of the sorted array
  only where the comparator is consistent; the result is a permutation of the array in
  every case.
\<close>

fun insertSorted :: "('a \<Rightarrow> 'a \<Rightarrow> jsnum) \<Rightarrow> 'a \<Rightarrow> 'a list \<Rightarrow> 'a list" where
  "insertSorted cmp x [] = [x]"
| "insertSorted cmp x (y # ys) =
     (if jgt (cmp x y) (Fin 0) then y # insertSorted cmp x ys else x # y # ys)"

definition arraySort :: "('a \<Rightarrow> 'a \<Rightarrow> jsnum) \<Rightarrow> 'a list \<Rightarrow> 'a list" where
  "arraySort cmp xs = foldr (insertSorted cmp) xs []"

text \<open>\<^verbatim>\<open>Array.from(new Set(xs))\<close>: the distinct elements in order of first occurrence.\<close>

definition arrayFromSet :: "'a list \<Rightarrow> 'a list" where
  "arrayFromSet xs = foldl (\<lambda>acc x. if x \<in> set acc then acc else acc @ [x]) [] xs"

text \<open>
  An object literal \<^verbatim>\<open>{}\<close> used as a dictionary: its own properties in creation order.
  A key that is not an own property is looked up in \<^verbatim>\<open>Object.prototype\<close>, whose
  properties are the names below; each of them is a truthy value without a \<^verbatim>\<open>push\<close>
  method.
\<close>

type_synonym 'v object = "(string \<times> 'v) list"

definition objectPrototypeKeys :: "string list" where
  "objectPrototypeKeys =
     [''constructor'', ''__defineGetter__'', ''__defineSetter__'', ''hasOwnProperty'',
      ''__lookupGetter__'', ''__lookupSetter__'', ''isPrototypeOf'',
      ''propertyIsEnumerable'', ''toString'', ''valueOf'', ''__proto__'',
      ''toLocaleString'']"

fun setProp :: "string \<Rightarrow> 'v \<Rightarrow> 'v object \<Rightarrow> 'v object" where
  "setProp k v [] = [(k, v)]"
| "setProp k v (p # ps) = (if fst p = k then (k, v) # ps else p # setProp k v ps)"

text \<open>
  \<^verbatim>\<open>Object.entries\<close>, and \<^verbatim>\<open>Object.keys\<close> followed by a lookup of each key: the keys
  that are array indices first, in ascending numeric order, then the other keys in
  creation order.
\<close>

definition isArrayIndex :: "string \<Rightarrow> bool" where
  "isArrayIndex s =
     (s \<noteq> [] \<and> list_all isDigit s \<and> (hd s \<noteq> CHR ''0'' \<or> length s = 1)
      \<and> decimalValue s < 4294967295)"

definition objectEntries :: "'v object \<Rightarrow> (string \<times> 'v) list" where
  "objectEntries obj =
     sort_key (\<lambda>p. decimalValue (fst p)) (filter (\<lambda>p. isArrayIndex (fst p)) obj)
     @ filter (\<lambda>p. \<not> isArrayIndex (fst p)) obj"

datatype jsError = TypeError

text \<open>
  The grouping loop shared by \<^verbatim>\<open>estimateWaitTimesByBackend\<close> and \<^verbatim>\<open>detectAnomalies\<close>:
  \<^verbatim>\<open>if (!byBackend[d.backend]) byBackend[d.backend] = []; byBackend[d.backend].push(d.queueSec)\<close>.
  For a backend named like a property of \<^verbatim>\<open>Object.prototype\<close> the lookup finds the
  inherited value, the array is not created, and the call of \<^verbatim>\<open>push\<close> throws a
  \<^verbatim>\<open>TypeError\<close>.
\<close>

fun groupQueueSec :: "jsnum list object \<Rightarrow> JobDurations list \<Rightarrow> jsError + jsnum list object" where
  "groupQueueSec byBackend [] = Inr byBackend"
| "groupQueueSec byBackend (d # ds) =
     (case map_of byBackend (d_backend d) of
        Some arr \<Rightarrow> groupQueueSec (setProp (d_backend d) (arr @ [queueSec d]) byBackend) ds
      | None \<Rightarrow>
          if d_backend d \<in> set objectPrototypeKeys then Inl TypeError
          else groupQueueSec (setProp (d_backend d) [queueSec d] byBackend) ds)"

section \<open>The wait-time aggregator: \<^verbatim>\<open>estimateWaitTimesByBackend\<close>\<close>

record WaitStats =
  mean :: jsnum
  p90 :: jsnum
  count :: nat

text \<open>The body of the second loop, for a non-empty array.\<close>

definition waitStatsOf :: "jsnum list \<Rightarrow> WaitStats" where
  "waitStatsOf arr =
    (let sorted = arraySort (\<lambda>a b. jsub a b) arr;
         mean = jdiv (foldl jadd (Fin 0) sorted) (num (length sorted));
         p90 = sorted ! min (length sorted - 1) (nat \<lfloor>real (length sorted) * 0.9\<rfloor>)
     in \<lparr> mean = mean, p90 = p90, count = length arr \<rparr>)"

definition estimateWaitTimesByBackend ::
  "dateParser \<Rightarrow> Job list \<Rightarrow> jsError + WaitStats object" where
  "estimateWaitTimesByBackend parseDate jobs =
    (case groupQueueSec [] (computeDurations parseDate jobs) of
       Inl e \<Rightarrow> Inl e
     | Inr byBackend \<Rightarrow>
         Inr (foldl (\<lambda>result (k, arr).
                       if arr = [] then result else setProp k (waitStatsOf arr) result)
                [] (objectEntries byBackend)))"

section \<open>The backend recommender: \<^verbatim>\<open>recommendBackends\<close>\<close>

record Weights =
  w_success :: jsnum
  w_queue :: jsnum
  w_exec :: jsnum

definition defaultWeights :: Weights where
  "defaultWeights = \<lparr> w_success = Fin 0.5, w_queue = Fin 0.3, w_exec = Fin 0.2 \<rparr>"

record BackendStats =
  s_backend :: string
  success :: jsnum
  avgQueue :: jsnum
  avgExec :: jsnum
  s_count :: nat

text \<open>
  An entry of the result: the statistics and the score. The \<^verbatim>\<open>reasons\<close> strings are
  formatted from \<open>success\<close>, \<open>avgQueue\<close> and \<open>avgExec\<close> and are left out.
\<close>

record Scored = BackendStats +
  score :: jsnum

text \<open>The callback of \<^verbatim>\<open>backends.map\<close>.\<close>

definition statsOf :: "Job list \<Rightarrow> JobDurations list \<Rightarrow> string \<Rightarrow> BackendStats" where
  "statsOf jobs durations b =
    (let subset = filter (\<lambda>j. backendOf j = b) jobs;
         n = (if length subset \<noteq> 0 then length subset else 1);
         completed = length (filter (\<lambda>j. status j = COMPLETED) subset);
         success = jdiv (num completed) (num n);
         durSubset = filter (\<lambda>d. d_backend d = b) durations;
         avgQueue = (if length durSubset \<noteq> 0
                     then jdiv (foldl (\<lambda>a d. jadd a (queueSec d)) (Fin 0) durSubset)
                            (num (length durSubset))
                     else PInf);
         avgExec = (if length durSubset \<noteq> 0
                    then jdiv (foldl (\<lambda>a d. jadd a (execSec d)) (Fin 0) durSubset)
                           (num (length durSubset))
                    else PInf)
     in \<lparr> s_backend = b, success = success, avgQueue = avgQueue, avgExec = avgExec,
          s_count = n \<rparr>)"

definition maxSuccess :: "BackendStats list \<Rightarrow> jsnum" where
  "maxSuccess stats = mathMax (map success stats @ [Fin 1])"

definition minQueue :: "BackendStats list \<Rightarrow> jsnum" where
  "minQueue stats = mathMin (filter isFinite (map avgQueue stats) @ [Fin 0])"

definition maxQueue :: "BackendStats list \<Rightarrow> jsnum" where
  "maxQueue stats = mathMax (filter isFinite (map avgQueue stats) @ [Fin 1])"

definition minExec :: "BackendStats list \<Rightarrow> jsnum" where
  "minExec stats = mathMin (filter isFinite (map avgExec stats) @ [Fin 0])"

definition maxExec :: "BackendStats list \<Rightarrow> jsnum" where
  "maxExec stats = mathMax (filter isFinite (map avgExec stats) @ [Fin 1])"

definition successN :: "BackendStats list \<Rightarrow> BackendStats \<Rightarrow> jsnum" where
  "successN stats s =
     (if truthy (maxSuccess stats) then jdiv (success s) (maxSuccess stats) else Fin 0)"

definition queueN :: "BackendStats list \<Rightarrow> BackendStats \<Rightarrow> jsnum" where
  "queueN stats s =
     (if isFinite (avgQueue s) \<and> strictNe (maxQueue stats) (minQueue stats)
      then jsub (Fin 1)
             (jdiv (jsub (avgQueue s) (minQueue stats)) (jsub (maxQueue stats) (minQueue stats)))
      else Fin 0)"

definition execN :: "BackendStats list \<Rightarrow> BackendStats \<Rightarrow> jsnum" where
  "execN stats s =
     (if isFinite (avgExec s) \<and> strictNe (maxExec stats) (minExec stats)
      then jsub (Fin 1)
             (jdiv (jsub (avgExec s) (minExec stats)) (jsub (maxExec stats) (minExec stats)))
      else Fin 0)"

text \<open>The callback of \<^verbatim>\<open>stats.map\<close>.\<close>

definition scoreOf :: "Weights \<Rightarrow> BackendStats list \<Rightarrow> BackendStats \<Rightarrow> jsnum" where
  "scoreOf weights stats s =
     jadd (jadd (jmul (w_success weights) (successN stats s))
                (jmul (w_queue weights) (queueN stats s)))
          (jmul (w_exec weights) (execN stats s))"

definition scored :: "Weights \<Rightarrow> BackendStats list \<Rightarrow> BackendStats \<Rightarrow> Scored" where
  "scored weights stats s =
     \<lparr> s_backend = s_backend s, success = success s, avgQueue = avgQueue s,
       avgExec = avgExec s, s_count = s_count s, score = scoreOf weights stats s \<rparr>"

text \<open>
  The body of \<^verbatim>\<open>recommendBackends\<close> after its first line, as a function of the
  durations, and the function itself.
\<close>

definition recommendFrom :: "Job list \<Rightarrow> JobDurations list \<Rightarrow> Weights \<Rightarrow> Scored list" where
  "recommendFrom jobs durations weights =
    (let backends = arrayFromSet (map backendOf jobs);
         stats = map (statsOf jobs durations) backends
     in arraySort (\<lambda>a b. jsub (score b) (score a)) (map (scored weights stats) stats))"

definition recommendBackends :: "dateParser \<Rightarrow> Job list \<Rightarrow> Weights \<Rightarrow> Scored list" where
  "recommendBackends parseDate jobs weights =
     recommendFrom jobs (computeDurations parseDate jobs) weights"

section \<open>The anomaly detector: \<^verbatim>\<open>detectAnomalies\<close>\<close>

datatype anomalyType = Stuck | FailureCluster

text \<open>
  The \<^verbatim>\<open>details\<close> string is formatted from the backend and from numbers; the model
  keeps the values the template is filled with: backend, \<open>queueSec\<close> and \<open>z\<close> for a stuck
  job, backend and \<open>failRate\<close> for a failure cluster.
\<close>

datatype details = StuckDetails string jsnum jsnum | ClusterDetails string jsnum

record Anomaly =
  a_job_id :: string
  a_type :: anomalyType
  a_details :: details

definition meanOf :: "jsnum list \<Rightarrow> jsnum" where
  "meanOf arr = jdiv (foldl jadd (Fin 0) arr) (num (length arr))"

definition varianceOf :: "jsnum list \<Rightarrow> jsnum" where
  "varianceOf arr =
     jdiv (foldl (\<lambda>a b. jadd a (jmul (jsub b (meanOf arr)) (jsub b (meanOf arr)))) (Fin 0) arr)
       (num (length arr))"

definition stdOf :: "jsnum list \<Rightarrow> jsnum" where
  "stdOf arr = (if truthy (mathSqrt (varianceOf arr)) then mathSqrt (varianceOf arr) else Fin 1)"

definition zScore :: "jsnum list \<Rightarrow> jsnum \<Rightarrow> jsnum" where
  "zScore arr q = jdiv (jsub q (meanOf arr)) (stdOf arr)"

text \<open>
  One round of the z-score loop, for the key \<open>b\<close> of \<^verbatim>\<open>Object.keys(byBackend)\<close> with
  the array \<open>arr = byBackend[b]\<close>.
\<close>

definition stuckFor :: "JobDurations list \<Rightarrow> string \<Rightarrow> jsnum list \<Rightarrow> Anomaly list" where
  "stuckFor durations b arr =
    (if length arr < 8 then []
     else concat (map (\<lambda>d. if jgt (zScore arr (queueSec d)) (Fin 2.5)
                            then [\<lparr> a_job_id = d_job_id d, a_type = Stuck,
                                    a_details = StuckDetails b (queueSec d)
                                                  (zScore arr (queueSec d)) \<rparr>]
                            else [])
                   (filter (\<lambda>d. d_backend d = b) durations)))"

text \<open>One round of the failure-cluster loop; \<^verbatim>\<open>slice(-20)\<close> keeps the last 20 elements.\<close>

definition clusterFor :: "Job list \<Rightarrow> string \<Rightarrow> Anomaly list" where
  "clusterFor jobs b =
    (let subset = filter (\<lambda>j. backendOf j = b) jobs;
         recent = drop (length subset - 20) subset
     in if 10 \<le> length recent
        then (let failRate = jdiv (num (length (filter (\<lambda>j. status j = FAILED) recent)))
                               (num (length recent))
              in if jge failRate (Fin 0.5)
                 then [\<lparr> a_job_id = job_id (last recent), a_type = FailureCluster,
                         a_details = ClusterDetails b failRate \<rparr>]
                 else [])
        else [])"

definition detectAnomalies :: "dateParser \<Rightarrow> Job list \<Rightarrow> jsError + Anomaly list" where
  "detectAnomalies parseDate jobs =
    (let durations = computeDurations parseDate jobs
     in case groupQueueSec [] durations of
          Inl e \<Rightarrow> Inl e
        | Inr byBackend \<Rightarrow>
            Inr (concat (map (\<lambda>(k, arr). stuckFor durations k arr)
                           (objectEntries byBackend))
                 @ concat (map (clusterFor jobs) (arrayFromSet (map backendOf jobs)))))"

section \<open>The anomaly detector under rounded arithmetic\<close>

text \<open>
  The operations above compute finite results exactly, where the engine rounds every
  finite result to binary64. Rounding can decide a comparison such as \<^verbatim>\<open>z > 2.5\<close>, so
  the z-score loop is also given with the rounding left open: \<open>rnd\<close> maps the exact
  result of an operation on finite operands to the number the engine returns (a finite
  number or, on overflow, an infinity). NaN and the infinities behave as above, and the
  exact operations are the case \<open>rnd = Fin\<close>.
\<close>

definition addR :: "(real \<Rightarrow> jsnum) \<Rightarrow> jsnum \<Rightarrow> jsnum \<Rightarrow> jsnum" where
  "addR rnd a b = (case (a, b) of (Fin x, Fin y) \<Rightarrow> rnd (x + y) | _ \<Rightarrow> jadd a b)"



definition divR :: "(real \<Rightarrow> jsnum) \<Rightarrow> jsnum \<Rightarrow> jsnum \<Rightarrow> jsnum" where
  "divR rnd a b =
     (case (a, b) of
        (Fin x, Fin y) \<Rightarrow> if y = 0 then infOfSign x else rnd (x / y)
      | _ \<Rightarrow> jdiv a b)"









section \<open>Notions used to state the properties\<close>

text \<open>The finite values of a list of numbers, as reals.\<close>

definition finiteValues :: "jsnum list \<Rightarrow> real list" where
  "finiteValues xs =
     concat (map (\<lambda>x. case x of Fin a \<Rightarrow> [a] | PInf \<Rightarrow> [] | NInf \<Rightarrow> [] | NaN \<Rightarrow> []) xs)"

text \<open>The local constants \<^verbatim>\<open>backends\<close> and \<^verbatim>\<open>stats\<close> of \<^verbatim>\<open>recommendBackends\<close>.\<close>

definition backendsOf :: "Job list \<Rightarrow> string list" where
  "backendsOf jobs = arrayFromSet (map backendOf jobs)"

definition statsList :: "Job list \<Rightarrow> JobDurations list \<Rightarrow> BackendStats list" where
  "statsList jobs durations = map (statsOf jobs durations) (backendsOf jobs)"

text \<open>
  The normalisation bounds as the specification words them: the minimum and the maximum
  of the finite averages, and \<open>0\<close> and \<open>1\<close> only when no average is finite.
\<close>

definition specMinQueue :: "BackendStats list \<Rightarrow> jsnum" where
  "specMinQueue stats =
     (let fs = filter isFinite (map avgQueue stats) in if fs = [] then Fin 0 else mathMin fs)"

definition specMaxQueue :: "BackendStats list \<Rightarrow> jsnum" where
  "specMaxQueue stats =
     (let fs = filter isFinite (map avgQueue stats) in if fs = [] then Fin 1 else mathMax fs)"

definition specQueueN :: "BackendStats list \<Rightarrow> BackendStats \<Rightarrow> jsnum" where
  "specQueueN stats s =
     (if isFinite (avgQueue s) \<and> strictNe (specMaxQueue stats) (specMinQueue stats)
      then jsub (Fin 1)
             (jdiv (jsub (avgQueue s) (specMinQueue stats))
                (jsub (specMaxQueue stats) (specMinQueue stats)))
      else Fin 0)"

text \<open>A duration record with \<open>queueSec\<close> and \<open>execSec\<close> multiplied by \<open>c\<close>.\<close>

definition scaleDuration :: "real \<Rightarrow> JobDurations \<Rightarrow> JobDurations" where
  "scaleDuration c d =
     d\<lparr> queueSec := jmul (Fin c) (queueSec d), execSec := jmul (Fin c) (execSec d) \<rparr>"

text \<open>The duration records of a backend, and its \<open>queueSec\<close> sample, in input order.\<close>

definition durationsOn :: "dateParser \<Rightarrow> Job list \<Rightarrow> string \<Rightarrow> JobDurations list" where
  "durationsOn parseDate jobs b =
     filter (\<lambda>d. d_backend d = b) (computeDurations parseDate jobs)"

definition queueSample :: "dateParser \<Rightarrow> Job list \<Rightarrow> string \<Rightarrow> jsnum list" where
  "queueSample parseDate jobs b = map queueSec (durationsOn parseDate jobs b)"

text \<open>The index of the 90th percentile in a sorted sample of \<open>n\<close> values.\<close>

definition p90Index :: "nat \<Rightarrow> nat" where
  "p90Index n = min (n - 1) (nat \<lfloor>real n * 0.9\<rfloor>)"






text \<open>A number in the interval from 0 to 1.\<close>

definition inUnit :: "jsnum \<Rightarrow> bool" where
  "inUnit x = (jle (Fin 0) x \<and> jle x (Fin 1))"

text \<open>A number that is NaN or finite and at least 0.\<close>

definition nonNegOrNaN :: "jsnum \<Rightarrow> bool" where
  "nonNegOrNaN x = (x = NaN \<or> jge x (Fin 0) \<and> isFinite x)"

section \<open>Concrete inputs\<close>

definition epoch :: string where
  "epoch = ''1970-01-01T00:00:00.000Z''"

text \<open>Two backends with one job each: queue times of 5 and 10 seconds.\<close>

definition jobsTwoQueues :: "Job list" where
  "jobsTwoQueues =
     [mkJob ''a1'' ''A'' COMPLETED epoch (Some ''1970-01-01T00:00:05.000Z'') (Some ''0''),
      mkJob ''b1'' ''B'' COMPLETED epoch (Some ''1970-01-01T00:00:10.000Z'') (Some ''0'')]"

text \<open>
  Two backends: \<open>A\<close> with one completed job that waited 0.1 seconds, \<open>B\<close> with a
  completed and a failed job that did not wait; and the same jobs with the wait of the
  first multiplied by 10.
\<close>

definition jobsSubSecond :: "Job list" where
  "jobsSubSecond =
     [mkJob ''a1'' ''A'' COMPLETED epoch (Some ''1970-01-01T00:00:00.100Z'') (Some ''0''),
      mkJob ''b1'' ''B'' COMPLETED epoch (Some epoch) (Some ''0''),
      mkJob ''b2'' ''B'' FAILED epoch (Some epoch) (Some ''0'')]"

definition jobsSubSecondTimes10 :: "Job list" where
  "jobsSubSecondTimes10 =
     [mkJob ''a1'' ''A'' COMPLETED epoch (Some ''1970-01-01T00:00:01.000Z'') (Some ''0''),
      mkJob ''b1'' ''B'' COMPLETED epoch (Some epoch) (Some ''0''),
      mkJob ''b2'' ''B'' FAILED epoch (Some epoch) (Some ''0'')]"

text \<open>One backend with three jobs that waited 10, 5 and 7 seconds.\<close>

definition jobsThreeWaits :: "Job list" where
  "jobsThreeWaits =
     [mkJob ''w1'' ''A'' COMPLETED epoch (Some ''1970-01-01T00:00:10.000Z'') (Some ''0''),
      mkJob ''w2'' ''A'' COMPLETED epoch (Some ''1970-01-01T00:00:05.000Z'') (Some ''0''),
      mkJob ''w3'' ''A'' COMPLETED epoch (Some ''1970-01-01T00:00:07.000Z'') (Some ''0'')]"


text \<open>A job on a backend named like a property of \<^verbatim>\<open>Object.prototype\<close>.\<close>

definition jobsConstructor :: "Job list" where
  "jobsConstructor = [mkJob ''c1'' ''constructor'' COMPLETED epoch None None]"

text \<open>
  A job whose \<open>execution_time\<close> is the digit \<open>1\<close> followed by 309 zeros, more than any
  finite number, and that ended 3 seconds after its creation.
\<close>

definition jobsHugeExecution :: "Job list" where
  "jobsHugeExecution =
     [mkJob ''h1'' ''A'' COMPLETED epoch (Some ''1970-01-01T00:00:03.000Z'')
        (Some (CHR ''1'' # replicate 309 (CHR ''0'')))]"

text \<open>
  One backend with three jobs: the first waited 5 seconds, the second has a
  \<open>creation_time\<close> that is not a date, the third waited 1 second.
\<close>

definition jobsNaNWait :: "Job list" where
  "jobsNaNWait =
     [mkJob ''n1'' ''A'' COMPLETED epoch (Some ''1970-01-01T00:00:05.000Z'') (Some ''0''),
      mkJob ''n2'' ''A'' COMPLETED ''not a date'' (Some ''1970-01-01T00:00:07.000Z'') (Some ''0''),
      mkJob ''n3'' ''A'' COMPLETED epoch (Some ''1970-01-01T00:00:01.000Z'') (Some ''0'')]"

section \<open>Evaluation of concrete inputs\<close>

lemmas isoDate_eval =
  isoDate_def field_def isDigit_def decimalValue_def daysInMonth_def daysBeforeMonth_def
  dayFromYear_def inLeapYear_def getTime_def

lemmas parseInt_eval = parseInt10_def isWhite_def isDigit_def decimalValue_def overflowBound_def

lemmas jsnum_eval =
  jsub_def jge_def jgt_def max2_def min2_def mathMax_def mathMin_def infOfSign_def
  strictNe_def num_def

section \<open>Duration estimator: properties\<close>

lemma durationOf_specDuration: "durationOf parseDate j = specDuration parseDate j"
  by (simp add: durationOf_def specDuration_def specQueueSec_def specTurnaroundSec_def
      specExecSec_def specSpanSec_def specExecMs_def specEndMs_def getTime_def jge_def
      Let_def split: option.splits jsnum.splits)

text \<open>
  C1 fails on the code. A job whose \<open>creation_time\<close> is a non-empty string that is not a
  date passes the filter, \<open>startMs\<close> is NaN, and with an \<open>end_time\<close> that parses the
  clamp \<^verbatim>\<open>Math.max(0, (endMs - startMs) / 1000)\<close> is NaN: \<open>queueSec\<close> is NaN, and so is
  \<open>execSec\<close> unless \<open>execution_time\<close> parses. \<^verbatim>\<open>NaN >= 0\<close> is false.
\<close>

theorem computeDurations_unparseable_creation_time:
  "map (\<lambda>d. (queueSec d, execSec d))
     (computeDurations isoDate
        [mkJob ''j1'' ''A'' COMPLETED ''not a date'' (Some ''1970-01-01T00:00:01.000Z'') None,
         mkJob ''j2'' ''A'' COMPLETED ''not a date'' (Some ''1970-01-01T00:00:01.000Z'')
           (Some ''1500'')])
   = [(NaN, NaN), (NaN, Fin (3 / 2))]
   \<and> \<not> jge NaN (Fin 0)"
  by (simp add: computeDurations_def durationOf_def mkJob_def backendOf_def isoDate_eval
      parseInt_eval jsnum_eval)

text \<open>
  C2: \<open>computeDurations\<close> keeps exactly the jobs with a non-empty \<open>creation_time\<close>, in
  order, and computes for each the record of the specification (\<open>specDuration\<close>:
  \<open>execSec\<close>, \<open>turnaroundSec\<close> and \<open>queueSec\<close> as worded there). The output is no longer
  than the input, and a job whose \<open>creation_time\<close> is the empty string contributes
  nothing wherever it stands in the input. An \<open>execution_time\<close> that parses to NaN, to
  an infinity or to a negative number is not a valid finite non-negative number: the
  span from \<open>creation_time\<close> to \<open>end_time\<close> is used in its place.
\<close>

theorem computeDurations_refines_spec:
  "computeDurations parseDate jobs
     = map (specDuration parseDate) (filter (\<lambda>j. creation_time j \<noteq> []) jobs)
   \<and> length (computeDurations parseDate jobs) \<le> length jobs
   \<and> computeDurations parseDate (xs @ [j\<lparr>creation_time := []\<rparr>] @ ys)
       = computeDurations parseDate (xs @ ys)"
proof -
  have "durationOf parseDate = specDuration parseDate"
    by (rule ext) (rule durationOf_specDuration)
  then show ?thesis
    by (simp add: computeDurations_def)
qed

lemma decimalValue_zeros:
  "foldl (\<lambda>acc c. 10 * acc + ((of_char c :: nat) - 48)) a (replicate n (CHR ''0'')) = a * 10 ^ n"
  by (induction n arbitrary: a) simp_all

lemma parseInt10_huge: "parseInt10 (CHR ''1'' # replicate 309 (CHR ''0'')) = PInf"
proof -
  define x where "x = CHR ''1'' # replicate 309 (CHR ''0'')"
  have w: "dropWhile isWhite x = x"
    by (simp add: x_def isWhite_def)
  have h: "x \<noteq> []" "hd x = CHR ''1''"
    by (simp_all add: x_def)
  have d: "takeWhile isDigit x = x"
    by (simp add: x_def isDigit_def takeWhile_eq_all_conv)
  have v: "decimalValue x = 10 ^ 309"
    by (simp add: x_def decimalValue_def decimalValue_zeros)
  have o: "overflowBound \<le> decimalValue x"
    by (simp add: v overflowBound_def)
  have "parseInt10 x = PInf"
    by (simp add: parseInt10_def Let_def w h d o)
  then show ?thesis
    by (simp only: x_def)
qed

theorem computeDurations_refines_spec_witness:
  "parseInt10 (CHR ''1'' # replicate 309 (CHR ''0'')) = PInf
   \<and> computeDurations isoDate jobsHugeExecution
       = map (specDuration isoDate) jobsHugeExecution
   \<and> map (\<lambda>d. (queueSec d, execSec d)) (computeDurations isoDate jobsHugeExecution)
       = [(Fin 0, Fin 3)]"
proof -
  have f: "filter (\<lambda>j. creation_time j \<noteq> []) jobsHugeExecution = jobsHugeExecution"
    by (simp add: jobsHugeExecution_def mkJob_def epoch_def)
  have s: "computeDurations isoDate jobsHugeExecution = map (specDuration isoDate) jobsHugeExecution"
    using computeDurations_refines_spec [of isoDate jobsHugeExecution] by (simp only: f)
  have e: "map (\<lambda>d. (queueSec d, execSec d)) (map (specDuration isoDate) jobsHugeExecution)
           = [(Fin 0, Fin 3)]"
    by (simp add: jobsHugeExecution_def mkJob_def epoch_def specDuration_def specQueueSec_def
        specTurnaroundSec_def specExecSec_def specExecMs_def specEndMs_def specSpanSec_def
        parseInt10_huge isoDate_eval jsnum_eval)
  show ?thesis
    using parseInt10_huge s e by (simp only: simp_thms)
qed

section \<open>Sorting, sets and numbers: basic facts\<close>

lemma mset_insertSorted: "mset (insertSorted cmp x ys) = add_mset x (mset ys)"
  by (induction ys) auto

lemma mset_arraySort: "mset (arraySort cmp xs) = mset xs"
  by (induction xs) (auto simp: arraySort_def mset_insertSorted)

lemma set_arraySort: "set (arraySort cmp xs) = set xs"
  using mset_arraySort [of cmp xs] by (metis set_mset_mset)

lemma length_arraySort: "length (arraySort cmp xs) = length xs"
  using mset_arraySort [of cmp xs] by (metis size_mset)

lemma sorted_insertSorted:
  assumes "\<And>a b. a \<in> A \<Longrightarrow> b \<in> A \<Longrightarrow> cmp a b = Fin (g a - g b)"
    and "x \<in> A" and "set ys \<subseteq> A"
    and "sorted_wrt (\<lambda>a b. g a \<le> (g b :: real)) ys"
  shows "sorted_wrt (\<lambda>a b. g a \<le> g b) (insertSorted cmp x ys)"
  using assms(3,4)
proof (induction ys)
  case Nil
  then show ?case by simp
next
  case (Cons y ys)
  have c: "cmp x y = Fin (g x - g y)"
    using assms(1) [of x y] assms(2) Cons.prems(1) by simp
  show ?case
  proof (cases "g y < g x")
    case True
    then have "insertSorted cmp x (y # ys) = y # insertSorted cmp x ys"
      by (simp add: c jgt_def)
    moreover have "sorted_wrt (\<lambda>a b. g a \<le> g b) (insertSorted cmp x ys)"
      using Cons by simp
    moreover have "\<forall>z \<in> set (insertSorted cmp x ys). g y \<le> g z"
    proof -
      have "set (insertSorted cmp x ys) = insert x (set ys)"
        using mset_insertSorted [of cmp x ys] by (metis set_mset_add_mset_insert set_mset_mset)
      then show ?thesis using True Cons.prems(2) by auto
    qed
    ultimately show ?thesis by simp
  next
    case False
    then have "insertSorted cmp x (y # ys) = x # y # ys"
      by (simp add: c jgt_def)
    then show ?thesis using False Cons.prems(2) by auto
  qed
qed

lemma sorted_arraySort:
  assumes "\<And>a b. a \<in> set xs \<Longrightarrow> b \<in> set xs \<Longrightarrow> cmp a b = Fin (g a - g b)"
  shows "sorted_wrt (\<lambda>a b. g a \<le> (g b :: real)) (arraySort cmp xs)"
proof -
  have "set ys \<subseteq> set xs \<Longrightarrow> sorted_wrt (\<lambda>a b. g a \<le> g b) (foldr (insertSorted cmp) ys [])" for ys
  proof (induction ys)
    case Nil
    then show ?case by simp
  next
    case (Cons y ys)
    have s: "set (foldr (insertSorted cmp) ys []) \<subseteq> set xs"
      using set_arraySort [of cmp ys] Cons.prems by (simp add: arraySort_def)
    show ?case
      using sorted_insertSorted [of "set xs" cmp g y "foldr (insertSorted cmp) ys []"]
        assms Cons s by simp
  qed
  then show ?thesis by (simp add: arraySort_def)
qed

lemma arrayFromSet_acc:
  "set (foldl (\<lambda>acc x. if x \<in> set acc then acc else acc @ [x]) acc xs) = set acc \<union> set xs
   \<and> (distinct acc \<longrightarrow> distinct (foldl (\<lambda>acc x. if x \<in> set acc then acc else acc @ [x]) acc xs))"
  by (induction xs arbitrary: acc) auto

lemma set_arrayFromSet: "set (arrayFromSet xs) = set xs"
  using arrayFromSet_acc [of "[]" xs] by (simp add: arrayFromSet_def)

lemma distinct_arrayFromSet: "distinct (arrayFromSet xs)"
  using arrayFromSet_acc [of "[]" xs] by (simp add: arrayFromSet_def)

lemma filter_isFinite: "filter isFinite xs = map Fin (finiteValues xs)"
  by (induction xs) (auto simp: finiteValues_def split: jsnum.splits)

lemma max2_Fin [simp]: "max2 (Fin a) (Fin b) = Fin (max a b)"
  by (simp add: max2_def max_def)

lemma min2_Fin [simp]: "min2 (Fin a) (Fin b) = Fin (min a b)"
  by (auto simp add: min2_def min_def)

lemma max2_NInf [simp]: "max2 NInf (Fin b) = Fin b"
  by (simp add: max2_def)

lemma min2_PInf [simp]: "min2 PInf (Fin b) = Fin b"
  by (simp add: min2_def)

lemma foldl_max2_Fin: "foldl max2 (Fin m) (map Fin rs) = Fin (Max (set (m # rs)))"
proof (induction rs arbitrary: m)
  case Nil
  then show ?case by simp
next
  case (Cons r rs)
  have "Max (set (max m r # rs)) = Max (set (m # r # rs))"
    by (cases "rs = []") (simp_all add: max.assoc)
  then show ?case using Cons by simp
qed

lemma foldl_min2_Fin: "foldl min2 (Fin m) (map Fin rs) = Fin (Min (set (m # rs)))"
proof (induction rs arbitrary: m)
  case Nil
  then show ?case by simp
next
  case (Cons r rs)
  have "Min (set (min m r # rs)) = Min (set (m # r # rs))"
    by (cases "rs = []") (simp_all add: min.assoc)
  then show ?case using Cons by simp
qed

lemma mathMax_finite_with: "mathMax (map Fin rs @ [Fin c]) = Fin (Max (set (c # rs)))"
proof (cases rs)
  case Nil
  then show ?thesis by (simp add: mathMax_def)
next
  case (Cons r rs')
  have "mathMax (map Fin rs @ [Fin c]) = foldl max2 (Fin r) (map Fin (rs' @ [c]))"
    by (simp add: mathMax_def Cons)
  also have "\<dots> = Fin (Max (set (r # rs' @ [c])))"
    by (rule foldl_max2_Fin)
  also have "set (r # rs' @ [c]) = set (c # rs)"
    by (auto simp: Cons)
  finally show ?thesis .
qed

lemma mathMin_finite_with: "mathMin (map Fin rs @ [Fin c]) = Fin (Min (set (c # rs)))"
proof (cases rs)
  case Nil
  then show ?thesis by (simp add: mathMin_def)
next
  case (Cons r rs')
  have "mathMin (map Fin rs @ [Fin c]) = foldl min2 (Fin r) (map Fin (rs' @ [c]))"
    by (simp add: mathMin_def Cons)
  also have "\<dots> = Fin (Min (set (r # rs' @ [c])))"
    by (rule foldl_min2_Fin)
  also have "set (r # rs' @ [c]) = set (c # rs)"
    by (auto simp: Cons)
  finally show ?thesis .
qed

lemma maxQueue_eq: "maxQueue stats = Fin (Max (set (1 # finiteValues (map avgQueue stats))))"
  by (simp only: maxQueue_def filter_isFinite mathMax_finite_with)

lemma minQueue_eq: "minQueue stats = Fin (Min (set (0 # finiteValues (map avgQueue stats))))"
  by (simp only: minQueue_def filter_isFinite mathMin_finite_with)

lemma maxExec_eq: "maxExec stats = Fin (Max (set (1 # finiteValues (map avgExec stats))))"
  by (simp only: maxExec_def filter_isFinite mathMax_finite_with)

lemma minExec_eq: "minExec stats = Fin (Min (set (0 # finiteValues (map avgExec stats))))"
  by (simp only: minExec_def filter_isFinite mathMin_finite_with)

lemma normalised_value:
  fixes lo hi :: real
  assumes "lo \<le> 0" "1 \<le> hi"
  shows "(if isFinite x \<and> strictNe (Fin hi) (Fin lo)
          then jsub (Fin 1) (jdiv (jsub x (Fin lo)) (jsub (Fin hi) (Fin lo))) else Fin 0)
         = (case x of Fin a \<Rightarrow> Fin (1 - (a - lo) / (hi - lo)) | PInf \<Rightarrow> Fin 0 | NInf \<Rightarrow> Fin 0 | NaN \<Rightarrow> Fin 0)"
  using assms by (cases x) (auto simp: strictNe_def jsub_def)

lemma queueN_eq:
  "queueN stats s =
     (case avgQueue s of
        Fin a \<Rightarrow> Fin (1 - (a - Min (set (0 # finiteValues (map avgQueue stats))))
                         / (Max (set (1 # finiteValues (map avgQueue stats)))
                            - Min (set (0 # finiteValues (map avgQueue stats)))))
      | PInf \<Rightarrow> Fin 0 | NInf \<Rightarrow> Fin 0 | NaN \<Rightarrow> Fin 0)"
  unfolding queueN_def maxQueue_eq minQueue_eq
  by (rule normalised_value) simp_all

lemma execN_eq:
  "execN stats s =
     (case avgExec s of
        Fin a \<Rightarrow> Fin (1 - (a - Min (set (0 # finiteValues (map avgExec stats))))
                         / (Max (set (1 # finiteValues (map avgExec stats)))
                            - Min (set (0 # finiteValues (map avgExec stats)))))
      | PInf \<Rightarrow> Fin 0 | NInf \<Rightarrow> Fin 0 | NaN \<Rightarrow> Fin 0)"
  unfolding execN_def maxExec_eq minExec_eq
  by (rule normalised_value) simp_all

section \<open>Recommender: normalisation\<close>

text \<open>
  The bounds of the normalisation as the code computes them: \<open>minQueue\<close> is the least of
  \<open>0\<close> and the finite per-backend averages, \<open>maxQueue\<close> the greatest of \<open>1\<close> and the
  finite averages (likewise \<open>minExec\<close> and \<open>maxExec\<close>), whether or not a finite average
  exists. The two bounds therefore always differ: the test \<^verbatim>\<open>maxQueue !== minQueue\<close>
  never fails.
\<close>

theorem normalisation_bounds:
  "minQueue stats = Fin (Min (set (0 # finiteValues (map avgQueue stats))))
   \<and> maxQueue stats = Fin (Max (set (1 # finiteValues (map avgQueue stats))))
   \<and> minExec stats = Fin (Min (set (0 # finiteValues (map avgExec stats))))
   \<and> maxExec stats = Fin (Max (set (1 # finiteValues (map avgExec stats))))
   \<and> strictNe (maxQueue stats) (minQueue stats)
   \<and> strictNe (maxExec stats) (minExec stats)"
proof -
  have q: "strictNe (maxQueue stats) (minQueue stats)"
  proof -
    have "Min (set (0 # finiteValues (map avgQueue stats))) \<le> 0"
      and "1 \<le> Max (set (1 # finiteValues (map avgQueue stats)))"
      by simp_all
    then have "Max (set (1 # finiteValues (map avgQueue stats)))
               \<noteq> Min (set (0 # finiteValues (map avgQueue stats)))"
      by linarith
    then show ?thesis
      by (simp add: maxQueue_eq minQueue_eq strictNe_def)
  qed
  have e: "strictNe (maxExec stats) (minExec stats)"
  proof -
    have "Min (set (0 # finiteValues (map avgExec stats))) \<le> 0"
      and "1 \<le> Max (set (1 # finiteValues (map avgExec stats)))"
      by simp_all
    then have "Max (set (1 # finiteValues (map avgExec stats)))
               \<noteq> Min (set (0 # finiteValues (map avgExec stats)))"
      by linarith
    then show ?thesis
      by (simp add: maxExec_eq minExec_eq strictNe_def)
  qed
  show ?thesis
    using q e maxQueue_eq minQueue_eq maxExec_eq minExec_eq by blast
qed

lemma dur_jobsTwoQueues:
  "computeDurations isoDate jobsTwoQueues =
    [\<lparr> d_job_id = ''a1'', d_backend = ''A'', d_backend_type = [], d_status = COMPLETED,
        queueSec = Fin 5, execSec = Fin 0 \<rparr>,
     \<lparr> d_job_id = ''b1'', d_backend = ''B'', d_backend_type = [], d_status = COMPLETED,
        queueSec = Fin 10, execSec = Fin 0 \<rparr>]"
  by (simp add: jobsTwoQueues_def epoch_def computeDurations_def durationOf_def mkJob_def
      backendOf_def isoDate_eval parseInt_eval jsnum_eval)

lemma stats_jobsTwoQueues:
  "statsList jobsTwoQueues (computeDurations isoDate jobsTwoQueues) =
    [\<lparr> s_backend = ''A'', success = Fin 1, avgQueue = Fin 5, avgExec = Fin 0, s_count = 1 \<rparr>,
     \<lparr> s_backend = ''B'', success = Fin 1, avgQueue = Fin 10, avgExec = Fin 0, s_count = 1 \<rparr>]"
  unfolding dur_jobsTwoQueues
  by (simp add: statsList_def backendsOf_def arrayFromSet_def statsOf_def jobsTwoQueues_def
      mkJob_def backendOf_def jsnum_eval)

text \<open>
  C3: the code departs from the claim. The constants \<open>0\<close> and \<open>1\<close> are arguments of
  \<^verbatim>\<open>Math.min\<close> and \<^verbatim>\<open>Math.max\<close> beside the finite averages, not defaults for the case
  that no average is finite. With average queue times of 5 and 10 seconds the code has
  \<open>minQueue = 0\<close> where the minimum of the finite averages is 5, and \<open>queueN = 1/2\<close> for
  the first backend where the bounds of the claim (\<open>specMinQueue\<close>, \<open>specMaxQueue\<close>) give
  1.
\<close>

theorem normalisation_bounds_counterexample:
  "minQueue (statsList jobsTwoQueues (computeDurations isoDate jobsTwoQueues)) = Fin 0
   \<and> specMinQueue (statsList jobsTwoQueues (computeDurations isoDate jobsTwoQueues)) = Fin 5
   \<and> map (queueN (statsList jobsTwoQueues (computeDurations isoDate jobsTwoQueues)))
        (statsList jobsTwoQueues (computeDurations isoDate jobsTwoQueues)) = [Fin (1 / 2), Fin 0]
   \<and> map (specQueueN (statsList jobsTwoQueues (computeDurations isoDate jobsTwoQueues)))
        (statsList jobsTwoQueues (computeDurations isoDate jobsTwoQueues)) = [Fin 1, Fin 0]"
  unfolding stats_jobsTwoQueues
  by (simp add: minQueue_def maxQueue_def specMinQueue_def specMaxQueue_def queueN_def
      specQueueN_def jsnum_eval)

section \<open>Recommender: entries, scores and order\<close>

lemma inUnit_iff: "inUnit x \<longleftrightarrow> (\<exists>r. x = Fin r \<and> 0 \<le> r \<and> r \<le> 1)"
  by (cases x) (auto simp: inUnit_def)

lemma statsOf_fields [simp]:
  "s_backend (statsOf jobs durations b) = b"
  "s_count (statsOf jobs durations b) =
     (if filter (\<lambda>j. backendOf j = b) jobs \<noteq> [] then length (filter (\<lambda>j. backendOf j = b) jobs) else 1)"
  by (simp_all add: statsOf_def Let_def)

lemma scored_fields [simp]:
  "s_backend (scored w stats s) = s_backend s"
  "s_count (scored w stats s) = s_count s"
  "score (scored w stats s) = scoreOf w stats s"
  "avgQueue (scored w stats s) = avgQueue s"
  "avgExec (scored w stats s) = avgExec s"
  "success (scored w stats s) = success s"
  by (simp_all add: scored_def)

lemma recommendFrom_eq:
  "recommendFrom jobs durations w =
     arraySort (\<lambda>a b. jsub (score b) (score a))
       (map (scored w (statsList jobs durations)) (statsList jobs durations))"
  by (simp add: recommendFrom_def statsList_def backendsOf_def Let_def)

lemma map_s_backend_statsList: "map s_backend (statsList jobs durations) = backendsOf jobs"
  by (simp add: statsList_def comp_def)

lemma mset_backends_recommendFrom:
  "mset (map s_backend (recommendFrom jobs durations w)) = mset (backendsOf jobs)"
proof -
  have "mset (map s_backend (recommendFrom jobs durations w))
        = image_mset s_backend (mset (recommendFrom jobs durations w))"
    by simp
  also have "\<dots> = image_mset s_backend
                     (mset (map (scored w (statsList jobs durations)) (statsList jobs durations)))"
    by (simp only: recommendFrom_eq mset_arraySort)
  also have "\<dots> = mset (map s_backend (statsList jobs durations))"
    by (simp add: comp_def multiset.map_comp)
  finally show ?thesis by (simp only: map_s_backend_statsList)
qed

lemma set_backendsOf: "set (backendsOf jobs) = backendOf ` set jobs"
  by (simp add: backendsOf_def set_arrayFromSet)

lemma success_statsOf: "\<exists>r. success (statsOf jobs durations b) = Fin r \<and> 0 \<le> r \<and> r \<le> 1"
proof -
  let ?subset = "filter (\<lambda>j. backendOf j = b) jobs"
  have "length (filter (\<lambda>j. status j = COMPLETED) ?subset) \<le> length ?subset"
    by (rule length_filter_le)
  then show ?thesis
    by (auto simp: statsOf_def Let_def num_def divide_le_eq_1)
qed

lemma success_values:
  "\<exists>rs. map success (map (statsOf jobs durations) bs) = map Fin rs \<and> (\<forall>r \<in> set rs. r \<le> 1)"
proof (induction bs)
  case Nil
  then show ?case by simp
next
  case (Cons b bs)
  obtain r where r: "success (statsOf jobs durations b) = Fin r" "r \<le> 1"
    using success_statsOf by blast
  obtain rs where rs: "map success (map (statsOf jobs durations) bs) = map Fin rs"
      "\<forall>r \<in> set rs. r \<le> 1"
    using Cons by blast
  have "map success (map (statsOf jobs durations) (b # bs)) = map Fin (r # rs)"
    using r rs by simp
  moreover have "\<forall>x \<in> set (r # rs). x \<le> 1"
    using r rs by simp
  ultimately show ?case by blast
qed

lemma maxSuccess_statsList: "maxSuccess (statsList jobs durations) = Fin 1"
proof -
  obtain rs where rs: "map success (statsList jobs durations) = map Fin rs"
      "\<forall>r \<in> set rs. r \<le> 1"
    using success_values unfolding statsList_def by blast
  have "Max (set (1 # rs)) = 1"
    using rs(2) by (intro Max_eqI) auto
  then show ?thesis
    by (simp only: maxSuccess_def rs(1) mathMax_finite_with)
qed

lemma successN_statsList:
  "s \<in> set (statsList jobs durations) \<Longrightarrow> inUnit (successN (statsList jobs durations) s)"
proof -
  assume "s \<in> set (statsList jobs durations)"
  then obtain b where "s = statsOf jobs durations b"
    by (auto simp: statsList_def)
  then obtain r where "success s = Fin r" "0 \<le> r" "r \<le> 1"
    using success_statsOf by blast
  then show ?thesis
    by (simp add: successN_def maxSuccess_statsList inUnit_def)
qed

lemma Fin_in_finiteValues: "Fin a \<in> set xs \<Longrightarrow> a \<in> set (finiteValues xs)"
  by (induction xs) (auto simp: finiteValues_def)

lemma unit_fraction:
  fixes a lo hi :: real
  assumes "lo \<le> a" "a \<le> hi" "lo < hi"
  shows "0 \<le> 1 - (a - lo) / (hi - lo)" "1 - (a - lo) / (hi - lo) \<le> 1"
  using assms by (simp_all add: divide_le_eq_1)

lemma queueN_inUnit: "s \<in> set stats \<Longrightarrow> inUnit (queueN stats s)"
proof (cases "avgQueue s")
  case (Fin a)
  assume "s \<in> set stats"
  then have m: "a \<in> set (finiteValues (map avgQueue stats))"
    using Fin by (intro Fin_in_finiteValues) force
  let ?lo = "Min (set (0 # finiteValues (map avgQueue stats)))"
  let ?hi = "Max (set (1 # finiteValues (map avgQueue stats)))"
  have "?lo \<le> a" "a \<le> ?hi" "?lo \<le> 0" "1 \<le> ?hi"
    using m by (simp_all add: Min_le_iff Max_ge_iff)
  then have "0 \<le> 1 - (a - ?lo) / (?hi - ?lo)" "1 - (a - ?lo) / (?hi - ?lo) \<le> 1"
    by (intro unit_fraction; linarith)+
  then show ?thesis
    by (simp add: queueN_eq Fin inUnit_def)
qed (simp_all add: queueN_eq inUnit_def)

lemma execN_inUnit: "s \<in> set stats \<Longrightarrow> inUnit (execN stats s)"
proof (cases "avgExec s")
  case (Fin a)
  assume "s \<in> set stats"
  then have m: "a \<in> set (finiteValues (map avgExec stats))"
    using Fin by (intro Fin_in_finiteValues) force
  let ?lo = "Min (set (0 # finiteValues (map avgExec stats)))"
  let ?hi = "Max (set (1 # finiteValues (map avgExec stats)))"
  have "?lo \<le> a" "a \<le> ?hi" "?lo \<le> 0" "1 \<le> ?hi"
    using m by (simp_all add: Min_le_iff Max_ge_iff)
  then have "0 \<le> 1 - (a - ?lo) / (?hi - ?lo)" "1 - (a - ?lo) / (?hi - ?lo) \<le> 1"
    by (intro unit_fraction; linarith)+
  then show ?thesis
    by (simp add: execN_eq Fin inUnit_def)
qed (simp_all add: execN_eq inUnit_def)

lemma convex_unit:
  fixes ws wq we x y z :: real
  assumes "0 \<le> ws" "0 \<le> wq" "0 \<le> we" "ws + wq + we = 1"
    and "0 \<le> x" "x \<le> 1" "0 \<le> y" "y \<le> 1" "0 \<le> z" "z \<le> 1"
  shows "0 \<le> ws * x + wq * y + we * z" "ws * x + wq * y + we * z \<le> 1"
proof -
  show "0 \<le> ws * x + wq * y + we * z"
    using assms by simp
  have "ws * x \<le> ws" "wq * y \<le> wq" "we * z \<le> we"
    using assms by (simp_all add: mult_left_le)
  then show "ws * x + wq * y + we * z \<le> 1"
    using assms(4) by linarith
qed

lemma scoreOf_inUnit:
  assumes "w_success w = Fin ws" "w_queue w = Fin wq" "w_exec w = Fin we"
    and "0 \<le> ws" "0 \<le> wq" "0 \<le> we" "ws + wq + we = 1"
    and "inUnit (successN stats s)" "inUnit (queueN stats s)" "inUnit (execN stats s)"
  shows "inUnit (scoreOf w stats s)"
proof -
  obtain x y z where c: "successN stats s = Fin x" "0 \<le> x" "x \<le> 1"
      "queueN stats s = Fin y" "0 \<le> y" "y \<le> 1" "execN stats s = Fin z" "0 \<le> z" "z \<le> 1"
    using assms(8-10) unfolding inUnit_iff by blast
  have "scoreOf w stats s = Fin (ws * x + wq * y + we * z)"
    by (simp add: scoreOf_def assms(1-3) c)
  then show ?thesis
    unfolding inUnit_iff using convex_unit [OF assms(4-7) c(2,3,5,6,8,9)] by simp
qed

text \<open>
  C5: when the weights are non-negative numbers that sum to 1, every score of the
  returned list lies in the interval from 0 to 1, and the list is in descending order of
  score. The normalised components \<open>successN\<close>, \<open>queueN\<close> and \<open>execN\<close> of every backend
  lie in that interval for every input, so the claim's second condition always holds.
\<close>

theorem recommendBackends_score_bounds:
  assumes "w_success w = Fin ws" "w_queue w = Fin wq" "w_exec w = Fin we"
    and "0 \<le> ws" "0 \<le> wq" "0 \<le> we" "ws + wq + we = 1"
  shows "(\<forall>s \<in> set (statsList jobs (computeDurations parseDate jobs)).
            inUnit (successN (statsList jobs (computeDurations parseDate jobs)) s)
          \<and> inUnit (queueN (statsList jobs (computeDurations parseDate jobs)) s)
          \<and> inUnit (execN (statsList jobs (computeDurations parseDate jobs)) s))
       \<and> (\<forall>e \<in> set (recommendBackends parseDate jobs w). inUnit (score e))
       \<and> sorted_wrt (\<lambda>a b. jge (score a) (score b)) (recommendBackends parseDate jobs w)"
proof -
  let ?st = "statsList jobs (computeDurations parseDate jobs)"
  let ?xs = "map (scored w ?st) ?st"
  have comp: "\<forall>s \<in> set ?st. inUnit (successN ?st s) \<and> inUnit (queueN ?st s) \<and> inUnit (execN ?st s)"
    using successN_statsList queueN_inUnit execN_inUnit by blast
  have unit: "inUnit (score e)" if e: "e \<in> set ?xs" for e
  proof -
    obtain s where s: "s \<in> set ?st" "e = scored w ?st s"
      using e by auto
    have "inUnit (scoreOf w ?st s)"
      using comp s(1) by (intro scoreOf_inUnit [OF assms]) blast+
    then show ?thesis by (simp add: s(2))
  qed
  have res: "recommendBackends parseDate jobs w = arraySort (\<lambda>a b. jsub (score b) (score a)) ?xs"
    by (simp add: recommendBackends_def recommendFrom_eq)
  have bound: "\<forall>e \<in> set (recommendBackends parseDate jobs w). inUnit (score e)"
    using unit by (simp add: res set_arraySort)
  define g where "g = (\<lambda>e :: Scored. case score e of Fin r \<Rightarrow> - r | PInf \<Rightarrow> 0 | NInf \<Rightarrow> 0 | NaN \<Rightarrow> 0)"
  have g: "score e = Fin (- g e)" if e: "e \<in> set ?xs" for e
    using unit [OF e] by (auto simp: inUnit_iff g_def)
  have "sorted_wrt (\<lambda>a b. g a \<le> g b) (arraySort (\<lambda>a b. jsub (score b) (score a)) ?xs)"
  proof (rule sorted_arraySort)
    fix a b assume "a \<in> set ?xs" "b \<in> set ?xs"
    then show "jsub (score b) (score a) = Fin (g a - g b)"
      using g by (simp add: jsub_def)
  qed
  then have "sorted_wrt (\<lambda>a b. jge (score a) (score b)) (arraySort (\<lambda>a b. jsub (score b) (score a)) ?xs)"
  proof (rule sorted_wrt_mono_rel [rotated])
    fix a b
    assume "a \<in> set (arraySort (\<lambda>a b. jsub (score b) (score a)) ?xs)"
      and "b \<in> set (arraySort (\<lambda>a b. jsub (score b) (score a)) ?xs)" and "g a \<le> g b"
    then show "jge (score a) (score b)"
      using g [of a] g [of b] by (simp add: set_arraySort jge_def)
  qed
  then show ?thesis using comp bound res by simp
qed

lemma rec_jobsTwoQueues:
  "recommendBackends isoDate jobsTwoQueues defaultWeights =
    [\<lparr> s_backend = ''A'', success = Fin 1, avgQueue = Fin 5, avgExec = Fin 0, s_count = 1,
        score = Fin (17 / 20) \<rparr>,
     \<lparr> s_backend = ''B'', success = Fin 1, avgQueue = Fin 10, avgExec = Fin 0, s_count = 1,
        score = Fin (7 / 10) \<rparr>]"
  unfolding recommendBackends_def recommendFrom_eq stats_jobsTwoQueues
  by (simp add: arraySort_def scored_def scoreOf_def successN_def queueN_def execN_def
      maxSuccess_def minQueue_def maxQueue_def minExec_def maxExec_def defaultWeights_def
      jsnum_eval)

theorem recommendBackends_score_bounds_witness:
  "w_success defaultWeights = Fin (1 / 2) \<and> w_queue defaultWeights = Fin (3 / 10)
   \<and> w_exec defaultWeights = Fin (1 / 5) \<and> (1 / 2 + 3 / 10 + 1 / 5 :: real) = 1
   \<and> map score (recommendBackends isoDate jobsTwoQueues defaultWeights)
       = [Fin (17 / 20), Fin (7 / 10)]
   \<and> list_all (\<lambda>e. inUnit (score e)) (recommendBackends isoDate jobsTwoQueues defaultWeights)
   \<and> sorted_wrt (\<lambda>a b. jge (score a) (score b))
        (recommendBackends isoDate jobsTwoQueues defaultWeights)"
proof -
  have w: "w_success defaultWeights = Fin (1 / 2)" "w_queue defaultWeights = Fin (3 / 10)"
    "w_exec defaultWeights = Fin (1 / 5)"
    by (simp_all add: defaultWeights_def)
  have s: "(1 / 2 + 3 / 10 + 1 / 5 :: real) = 1"
    by simp
  have "(\<forall>e \<in> set (recommendBackends isoDate jobsTwoQueues defaultWeights). inUnit (score e))
        \<and> sorted_wrt (\<lambda>a b. jge (score a) (score b))
             (recommendBackends isoDate jobsTwoQueues defaultWeights)"
    using recommendBackends_score_bounds
      [OF w _ _ _ s, where parseDate = isoDate and jobs = jobsTwoQueues]
    by simp
  then show ?thesis
    using w s by (simp add: rec_jobsTwoQueues list_all_iff)
qed

text \<open>
  C10: \<open>recommendBackends\<close> returns exactly one entry for each distinct backend of the
  input, an empty \<open>backend\<close> counting as \<open>Unknown\<close>: the backends of the entries are
  distinct and are the backends of the jobs. The result is non-empty when the input is,
  and the \<open>count\<close> of an entry is the number of jobs of its backend, at least 1, whether
  or not the backend has duration records.
\<close>

theorem recommendBackends_one_entry_per_backend:
  "distinct (map s_backend (recommendBackends parseDate jobs w))
   \<and> set (map s_backend (recommendBackends parseDate jobs w)) = backendOf ` set jobs
   \<and> length (recommendBackends parseDate jobs w) = card (backendOf ` set jobs)
   \<and> backendOf (j\<lparr>backend := []\<rparr>) = ''Unknown''
   \<and> (jobs \<noteq> [] \<longrightarrow> recommendBackends parseDate jobs w \<noteq> [])
   \<and> (\<forall>e \<in> set (recommendBackends parseDate jobs w).
         1 \<le> s_count e
         \<and> s_count e = length (filter (\<lambda>j. backendOf j = s_backend e) jobs))"
proof -
  let ?res = "recommendBackends parseDate jobs w"
  let ?st = "statsList jobs (computeDurations parseDate jobs)"
  have m: "mset (map s_backend ?res) = mset (backendsOf jobs)"
    by (simp only: recommendBackends_def mset_backends_recommendFrom)
  have d: "distinct (map s_backend ?res)"
    using m distinct_arrayFromSet [of "map backendOf jobs"]
    by (metis backendsOf_def mset_eq_imp_distinct_iff)
  have s: "set (map s_backend ?res) = backendOf ` set jobs"
    using m set_backendsOf by (metis mset_eq_setD)
  have l: "length ?res = card (backendOf ` set jobs)"
  proof -
    have "length ?res = length (map s_backend ?res)" by simp
    also have "\<dots> = card (set (map s_backend ?res))"
      using d by (simp only: distinct_card)
    finally show ?thesis by (simp only: s)
  qed
  have n: "jobs \<noteq> [] \<longrightarrow> ?res \<noteq> []"
    using s by (cases jobs) auto
  have c: "1 \<le> s_count e \<and> s_count e = length (filter (\<lambda>j. backendOf j = s_backend e) jobs)"
    if e: "e \<in> set ?res" for e
  proof -
    have "e \<in> set (map (scored w ?st) ?st)"
      using e by (simp add: recommendBackends_def recommendFrom_eq set_arraySort)
    then obtain b where b: "b \<in> set (backendsOf jobs)" "e = scored w ?st (statsOf jobs (computeDurations parseDate jobs) b)"
      by (auto simp: statsList_def)
    then obtain j where "j \<in> set jobs" "backendOf j = b"
      using set_backendsOf by auto
    then have "filter (\<lambda>j. backendOf j = b) jobs \<noteq> []"
      by (auto simp: filter_empty_conv)
    then show ?thesis
      by (cases "filter (\<lambda>j. backendOf j = b) jobs") (simp_all add: b(2))
  qed
  have u: "backendOf (j\<lparr>backend := []\<rparr>) = ''Unknown''"
    by (simp add: backendOf_def)
  show ?thesis using d s l n c u by blast
qed

theorem recommendBackends_one_entry_per_backend_witness:
  "jobsTwoQueues \<noteq> []
   \<and> recommendBackends isoDate jobsTwoQueues defaultWeights \<noteq> []
   \<and> distinct (map s_backend (recommendBackends isoDate jobsTwoQueues defaultWeights))
   \<and> map s_backend (recommendBackends isoDate jobsTwoQueues defaultWeights) = [''A'', ''B'']
   \<and> map s_count (recommendBackends isoDate jobsTwoQueues defaultWeights) = [1, 1]"
proof -
  have ne: "jobsTwoQueues \<noteq> []"
    by (simp add: jobsTwoQueues_def)
  have "recommendBackends isoDate jobsTwoQueues defaultWeights \<noteq> []
        \<and> distinct (map s_backend (recommendBackends isoDate jobsTwoQueues defaultWeights))"
    using ne recommendBackends_one_entry_per_backend
      [where parseDate = isoDate and jobs = jobsTwoQueues and w = defaultWeights]
    by blast
  then show ?thesis
    using ne by (simp add: rec_jobsTwoQueues)
qed

section \<open>Recommender: ranking under scaling\<close>

lemmas job_eval = epoch_def computeDurations_def durationOf_def mkJob_def backendOf_def Let_def

lemmas stats_eval = statsList_def backendsOf_def arrayFromSet_def statsOf_def mkJob_def
  backendOf_def

lemmas score_eval = arraySort_def scored_def scoreOf_def successN_def queueN_def execN_def
  maxSuccess_def minQueue_def maxQueue_def minExec_def maxExec_def defaultWeights_def

lemma dur_jobsSubSecond:
  "computeDurations isoDate jobsSubSecond =
    [\<lparr> d_job_id = ''a1'', d_backend = ''A'', d_backend_type = [], d_status = COMPLETED,
        queueSec = Fin (1 / 10), execSec = Fin 0 \<rparr>,
     \<lparr> d_job_id = ''b1'', d_backend = ''B'', d_backend_type = [], d_status = COMPLETED,
        queueSec = Fin 0, execSec = Fin 0 \<rparr>,
     \<lparr> d_job_id = ''b2'', d_backend = ''B'', d_backend_type = [], d_status = FAILED,
        queueSec = Fin 0, execSec = Fin 0 \<rparr>]"
  by (simp add: jobsSubSecond_def job_eval isoDate_eval parseInt_eval jsnum_eval)

lemma dur_jobsSubSecondTimes10:
  "computeDurations isoDate jobsSubSecondTimes10 =
    [\<lparr> d_job_id = ''a1'', d_backend = ''A'', d_backend_type = [], d_status = COMPLETED,
        queueSec = Fin 1, execSec = Fin 0 \<rparr>,
     \<lparr> d_job_id = ''b1'', d_backend = ''B'', d_backend_type = [], d_status = COMPLETED,
        queueSec = Fin 0, execSec = Fin 0 \<rparr>,
     \<lparr> d_job_id = ''b2'', d_backend = ''B'', d_backend_type = [], d_status = FAILED,
        queueSec = Fin 0, execSec = Fin 0 \<rparr>]"
  by (simp add: jobsSubSecondTimes10_def job_eval isoDate_eval parseInt_eval jsnum_eval)

lemma stats_jobsSubSecond:
  "statsList jobsSubSecond (computeDurations isoDate jobsSubSecond) =
    [\<lparr> s_backend = ''A'', success = Fin 1, avgQueue = Fin (1 / 10), avgExec = Fin 0, s_count = 1 \<rparr>,
     \<lparr> s_backend = ''B'', success = Fin (1 / 2), avgQueue = Fin 0, avgExec = Fin 0, s_count = 2 \<rparr>]"
  unfolding dur_jobsSubSecond
  by (simp add: stats_eval jobsSubSecond_def jsnum_eval)

lemma stats_jobsSubSecondTimes10:
  "statsList jobsSubSecondTimes10 (computeDurations isoDate jobsSubSecondTimes10) =
    [\<lparr> s_backend = ''A'', success = Fin 1, avgQueue = Fin 1, avgExec = Fin 0, s_count = 1 \<rparr>,
     \<lparr> s_backend = ''B'', success = Fin (1 / 2), avgQueue = Fin 0, avgExec = Fin 0, s_count = 2 \<rparr>]"
  unfolding dur_jobsSubSecondTimes10
  by (simp add: stats_eval jobsSubSecondTimes10_def jsnum_eval)

text \<open>
  C4: the code departs from the claim. \<open>maxQueue\<close> and \<open>maxExec\<close> are never below the
  constant \<open>1\<close>, so averages below one second are not normalised by their own maximum.
  Multiplying every \<open>queueSec\<close> and \<open>execSec\<close> of \<open>jobsSubSecond\<close> by 10 turns the
  ranking \<open>A, B\<close> into \<open>B, A\<close>.
\<close>

theorem ranking_scaling_counterexample:
  "computeDurations isoDate jobsSubSecondTimes10
     = map (scaleDuration 10) (computeDurations isoDate jobsSubSecond)
   \<and> map s_backend (recommendBackends isoDate jobsSubSecond defaultWeights) = [''A'', ''B'']
   \<and> map score (recommendBackends isoDate jobsSubSecond defaultWeights)
       = [Fin (97 / 100), Fin (3 / 4)]
   \<and> map s_backend (recommendBackends isoDate jobsSubSecondTimes10 defaultWeights) = [''B'', ''A'']
   \<and> map score (recommendBackends isoDate jobsSubSecondTimes10 defaultWeights)
       = [Fin (3 / 4), Fin (7 / 10)]"
proof -
  have "computeDurations isoDate jobsSubSecondTimes10
        = map (scaleDuration 10) (computeDurations isoDate jobsSubSecond)"
    unfolding dur_jobsSubSecond dur_jobsSubSecondTimes10 by (simp add: scaleDuration_def)
  moreover have "recommendBackends isoDate jobsSubSecond defaultWeights =
    [\<lparr> s_backend = ''A'', success = Fin 1, avgQueue = Fin (1 / 10), avgExec = Fin 0,
        s_count = 1, score = Fin (97 / 100) \<rparr>,
     \<lparr> s_backend = ''B'', success = Fin (1 / 2), avgQueue = Fin 0, avgExec = Fin 0,
        s_count = 2, score = Fin (3 / 4) \<rparr>]"
    unfolding recommendBackends_def recommendFrom_eq stats_jobsSubSecond
    by (simp add: score_eval jsnum_eval)
  moreover have "recommendBackends isoDate jobsSubSecondTimes10 defaultWeights =
    [\<lparr> s_backend = ''B'', success = Fin (1 / 2), avgQueue = Fin 0, avgExec = Fin 0,
        s_count = 2, score = Fin (3 / 4) \<rparr>,
     \<lparr> s_backend = ''A'', success = Fin 1, avgQueue = Fin 1, avgExec = Fin 0,
        s_count = 1, score = Fin (7 / 10) \<rparr>]"
    unfolding recommendBackends_def recommendFrom_eq stats_jobsSubSecondTimes10
    by (simp add: score_eval jsnum_eval)
  ultimately show ?thesis by simp
qed

section \<open>Objects and the grouping loop\<close>

lemma map_of_setProp: "map_of (setProp k v obj) = (map_of obj)(k \<mapsto> v)"
  by (induction obj) (auto simp: fun_eq_iff)

lemma keys_setProp:
  "map fst (setProp k v obj) = (if k \<in> fst ` set obj then map fst obj else map fst obj @ [k])"
  by (induction obj) auto

lemma distinct_setProp: "distinct (map fst obj) \<Longrightarrow> distinct (map fst (setProp k v obj))"
  by (simp add: keys_setProp)

lemma set_setProp: "p \<in> set (setProp k v obj) \<Longrightarrow> p \<in> set obj \<or> p = (k, v)"
  by (induction obj) (auto split: if_splits)

lemma map_of_None_iff: "map_of obj k = None \<longleftrightarrow> k \<notin> fst ` set obj"
  by (simp add: map_of_eq_None_iff)

lemma groupQueueSec_Inr:
  assumes "groupQueueSec obj ds = Inr res" "distinct (map fst obj)"
  shows "distinct (map fst res)
       \<and> map_of res k =
           (case map_of obj k of
              Some arr \<Rightarrow> Some (arr @ map queueSec (filter (\<lambda>d. d_backend d = k) ds))
            | None \<Rightarrow> if filter (\<lambda>d. d_backend d = k) ds = [] then None
                      else Some (map queueSec (filter (\<lambda>d. d_backend d = k) ds)))"
  using assms
proof (induction ds arbitrary: obj)
  case Nil
  then show ?case by (auto split: option.splits)
next
  case (Cons d ds)
  show ?case
  proof (cases "map_of obj (d_backend d)")
    case (Some arr)
    let ?obj = "setProp (d_backend d) (arr @ [queueSec d]) obj"
    have "groupQueueSec ?obj ds = Inr res"
      using Cons.prems(1) Some by simp
    then have ih: "distinct (map fst res)
       \<and> map_of res k =
           (case map_of ?obj k of
              Some arr \<Rightarrow> Some (arr @ map queueSec (filter (\<lambda>d. d_backend d = k) ds))
            | None \<Rightarrow> if filter (\<lambda>d. d_backend d = k) ds = [] then None
                      else Some (map queueSec (filter (\<lambda>d. d_backend d = k) ds)))"
      using Cons.IH distinct_setProp [OF Cons.prems(2)] by blast
    show ?thesis
      using ih Some by (auto simp: map_of_setProp split: option.splits)
  next
    case None
    let ?obj = "setProp (d_backend d) [queueSec d] obj"
    have "groupQueueSec ?obj ds = Inr res"
      using Cons.prems(1) None by (simp split: if_splits)
    then have ih: "distinct (map fst res)
       \<and> map_of res k =
           (case map_of ?obj k of
              Some arr \<Rightarrow> Some (arr @ map queueSec (filter (\<lambda>d. d_backend d = k) ds))
            | None \<Rightarrow> if filter (\<lambda>d. d_backend d = k) ds = [] then None
                      else Some (map queueSec (filter (\<lambda>d. d_backend d = k) ds)))"
      using Cons.IH distinct_setProp [OF Cons.prems(2)] by blast
    show ?thesis
      using ih None by (auto simp: map_of_setProp split: option.splits)
  qed
qed

lemma groupQueueSec_Inl:
  "(\<exists>e. groupQueueSec obj ds = Inl e)
   \<longleftrightarrow> (\<exists>d \<in> set ds. d_backend d \<in> set objectPrototypeKeys \<and> d_backend d \<notin> fst ` set obj)"
proof (induction ds arbitrary: obj)
  case Nil
  then show ?case by simp
next
  case (Cons d ds)
  show ?case
  proof (cases "map_of obj (d_backend d)")
    case (Some arr)
    then have in_obj: "d_backend d \<in> fst ` set obj"
      by (metis map_of_None_iff option.distinct(1))
    have "fst ` set (setProp (d_backend d) (arr @ [queueSec d]) obj) = fst ` set obj"
      using in_obj keys_setProp [of "d_backend d" "arr @ [queueSec d]" obj]
      by (metis list.set_map)
    then show ?thesis
      using Some in_obj Cons.IH [of "setProp (d_backend d) (arr @ [queueSec d]) obj"]
      by auto
  next
    case None
    then have not_in: "d_backend d \<notin> fst ` set obj"
      by (simp add: map_of_None_iff)
    show ?thesis
    proof (cases "d_backend d \<in> set objectPrototypeKeys")
      case True
      then show ?thesis using None not_in by auto
    next
      case False
      have "fst ` set (setProp (d_backend d) [queueSec d] obj) = insert (d_backend d) (fst ` set obj)"
        using not_in keys_setProp [of "d_backend d" "[queueSec d]" obj]
        by (metis list.set_map set_append list.simps(15) Un_insert_right sup_bot.right_neutral empty_set)
      then show ?thesis
        using None False Cons.IH [of "setProp (d_backend d) [queueSec d] obj"]
        by auto
    qed
  qed
qed


lemma set_objectEntries: "set (objectEntries obj) = set obj"
  by (auto simp: objectEntries_def)


section \<open>Wait-time aggregator: percentile and count\<close>

lemma groupQueueSec_sample:
  assumes "groupQueueSec [] (computeDurations parseDate jobs) = Inr byBackend"
  shows "distinct (map fst byBackend)"
    and "(k, arr) \<in> set byBackend
         \<longleftrightarrow> (arr = queueSample parseDate jobs k \<and> queueSample parseDate jobs k \<noteq> [])"
proof -
  note g = groupQueueSec_Inr [OF assms, of k, simplified]
  show d: "distinct (map fst byBackend)"
    using g by simp
  have "(k, arr) \<in> set byBackend \<longleftrightarrow> map_of byBackend k = Some arr"
    using d by simp
  then show "(k, arr) \<in> set byBackend
         \<longleftrightarrow> (arr = queueSample parseDate jobs k \<and> queueSample parseDate jobs k \<noteq> [])"
    using g by (auto simp: queueSample_def durationsOn_def)
qed

lemma waitStats_entries:
  "(k, ws) \<in> set (foldl (\<lambda>result (k, arr).
                          if arr = [] then result else setProp k (waitStatsOf arr) result)
                     acc es)
   \<Longrightarrow> (k, ws) \<in> set acc \<or> (\<exists>arr. (k, arr) \<in> set es \<and> arr \<noteq> [] \<and> ws = waitStatsOf arr)"
proof (induction es arbitrary: acc)
  case Nil
  then show ?case by simp
next
  case (Cons e es)
  obtain k' arr' where e: "e = (k', arr')" by (cases e)
  let ?acc = "if arr' = [] then acc else setProp k' (waitStatsOf arr') acc"
  have "(k, ws) \<in> set ?acc \<or> (\<exists>arr. (k, arr) \<in> set es \<and> arr \<noteq> [] \<and> ws = waitStatsOf arr)"
    using Cons.IH [of ?acc] Cons.prems by (simp add: e)
  moreover have "(k, ws) \<in> set ?acc \<Longrightarrow> (k, ws) \<in> set acc \<or> (k = k' \<and> arr' \<noteq> [] \<and> ws = waitStatsOf arr')"
    using set_setProp [of "(k, ws)" k' "waitStatsOf arr'" acc] by (auto split: if_splits)
  ultimately show ?case
    by (auto simp: e)
qed

lemma p90Index_div: "p90Index n = min (n - 1) ((9 * n) div 10)"
proof -
  have "real n * 0.9 = real (9 * n) / real 10"
    by simp
  then have "\<lfloor>real n * 0.9\<rfloor> = int ((9 * n) div 10)"
    by (simp only: floor_divide_of_nat_eq)
  then show ?thesis
    by (simp add: p90Index_def)
qed

lemma p90Index_less: "0 < n \<Longrightarrow> p90Index n < n"
proof -
  assume n: "0 < n"
  have "p90Index n \<le> n - 1"
    by (simp add: p90Index_def)
  then show ?thesis using n by arith
qed

lemma waitStatsOf_fields:
  "count (waitStatsOf arr) = length arr"
  "p90 (waitStatsOf arr) = arraySort (\<lambda>a b. jsub a b) arr ! p90Index (length arr)"
  "mean (waitStatsOf arr) = jdiv (foldl jadd (Fin 0) (arraySort (\<lambda>a b. jsub a b) arr)) (num (length arr))"
  by (simp_all add: waitStatsOf_def Let_def p90Index_def length_arraySort)

lemma insertSorted_finite:
  "insertSorted (\<lambda>a b. jsub a b) (Fin x) (map Fin ys) = map Fin (insort x ys)"
  by (induction ys) (auto simp: jsub_def jgt_def jsnum_eval)

lemma arraySort_finite: "arraySort (\<lambda>a b. jsub a b) (map Fin xs) = map Fin (sort xs)"
proof (induction xs)
  case Nil
  then show ?case by (simp add: arraySort_def)
next
  case (Cons x xs)
  have "arraySort (\<lambda>a b. jsub a b) (map Fin (x # xs))
        = insertSorted (\<lambda>a b. jsub a b) (Fin x) (arraySort (\<lambda>a b. jsub a b) (map Fin xs))"
    by (simp add: arraySort_def)
  also have "\<dots> = map Fin (insort x (sort xs))"
    by (simp only: Cons.IH insertSorted_finite)
  finally show ?case by simp
qed

text \<open>
  The entries of the wait-time aggregator. When \<open>estimateWaitTimesByBackend\<close> returns,
  every entry \<open>(k, ws)\<close> of its result belongs to a backend with a non-empty \<open>queueSec\<close>
  sample: \<open>count\<close> is the size of the sample, at least 1, and \<open>p90\<close> is a value of the
  sample. When every value of the sample is finite, \<open>p90\<close> is the element at index
  \<open>min (n - 1) (floor (n * 0.9))\<close> of the sample in ascending order.
\<close>

theorem estimateWaitTimes_p90:
  assumes "estimateWaitTimesByBackend parseDate jobs = Inr result"
    and "(k, ws) \<in> set result"
  shows "queueSample parseDate jobs k \<noteq> []
       \<and> count ws = length (queueSample parseDate jobs k)
       \<and> 1 \<le> count ws
       \<and> p90 ws \<in> set (queueSample parseDate jobs k)
       \<and> p90Index (length (queueSample parseDate jobs k))
           = min (length (queueSample parseDate jobs k) - 1)
               ((9 * length (queueSample parseDate jobs k)) div 10)
       \<and> (queueSample parseDate jobs k = map Fin xs
            \<longrightarrow> p90 ws = Fin (sort xs ! p90Index (length xs)))"
proof -
  let ?sample = "queueSample parseDate jobs k"
  obtain byBackend where g: "groupQueueSec [] (computeDurations parseDate jobs) = Inr byBackend"
    and r: "result = foldl (\<lambda>result (k, arr).
                          if arr = [] then result else setProp k (waitStatsOf arr) result)
                     [] (objectEntries byBackend)"
    using assms(1) by (auto simp: estimateWaitTimesByBackend_def split: sum.splits)
  obtain arr where arr: "(k, arr) \<in> set (objectEntries byBackend)" "ws = waitStatsOf arr"
    using waitStats_entries [of k ws "[]" "objectEntries byBackend"] assms(2) r by auto
  have s: "arr = ?sample" "?sample \<noteq> []"
    using arr(1) groupQueueSec_sample(2) [OF g, of k arr] by (simp_all add: set_objectEntries)
  have n: "0 < length ?sample"
    using s(2) by simp
  have idx: "p90Index (length ?sample) < length (arraySort (\<lambda>a b. jsub a b) ?sample)"
    using p90Index_less [OF n] by (simp add: length_arraySort)
  have mem: "arraySort (\<lambda>a b. jsub a b) ?sample ! p90Index (length ?sample) \<in> set ?sample"
    using nth_mem [OF idx] by (simp add: set_arraySort)
  have c: "count ws = length ?sample"
    by (simp add: arr(2) s(1) waitStatsOf_fields)
  have p: "p90 ws = arraySort (\<lambda>a b. jsub a b) ?sample ! p90Index (length ?sample)"
    by (simp add: arr(2) s(1) waitStatsOf_fields)
  have one: "1 \<le> count ws"
    using n c by (simp add: Suc_le_eq)
  have m: "p90 ws \<in> set ?sample"
    using mem p by simp
  have f: "?sample = map Fin xs \<longrightarrow> p90 ws = Fin (sort xs ! p90Index (length xs))"
  proof
    assume e: "?sample = map Fin xs"
    then have l: "length ?sample = length xs" by simp
    have "p90Index (length xs) < length (sort xs)"
      using p90Index_less [OF n] l by simp
    then show "p90 ws = Fin (sort xs ! p90Index (length xs))"
      unfolding p l unfolding e arraySort_finite by simp
  qed
  show ?thesis
    using s(2) c one m p90Index_div [of "length ?sample"] f by (simp only: simp_thms)
qed

lemma dur_jobsThreeWaits:
  "computeDurations isoDate jobsThreeWaits =
    [\<lparr> d_job_id = ''w1'', d_backend = ''A'', d_backend_type = [], d_status = COMPLETED,
        queueSec = Fin 10, execSec = Fin 0 \<rparr>,
     \<lparr> d_job_id = ''w2'', d_backend = ''A'', d_backend_type = [], d_status = COMPLETED,
        queueSec = Fin 5, execSec = Fin 0 \<rparr>,
     \<lparr> d_job_id = ''w3'', d_backend = ''A'', d_backend_type = [], d_status = COMPLETED,
        queueSec = Fin 7, execSec = Fin 0 \<rparr>]"
  by (simp add: jobsThreeWaits_def job_eval isoDate_eval parseInt_eval jsnum_eval)

lemma entries_A: "objectEntries [(''A'', v)] = [(''A'', v)]"
  by (simp add: objectEntries_def isArrayIndex_def isDigit_def)

lemma wait_jobsThreeWaits:
  "estimateWaitTimesByBackend isoDate jobsThreeWaits
   = Inr [(''A'', \<lparr> mean = Fin (22 / 3), p90 = Fin 10, count = 3 \<rparr>)]"
  unfolding estimateWaitTimesByBackend_def dur_jobsThreeWaits
  by (simp add: entries_A waitStatsOf_def arraySort_def p90Index_def [symmetric] p90Index_div
      objectPrototypeKeys_def jsnum_eval)

theorem estimateWaitTimes_p90_witness:
  "estimateWaitTimesByBackend isoDate jobsThreeWaits
     = Inr [(''A'', \<lparr> mean = Fin (22 / 3), p90 = Fin 10, count = 3 \<rparr>)]
   \<and> queueSample isoDate jobsThreeWaits ''A'' = map Fin [10, 5, 7]
   \<and> sort [10, 5, 7 :: real] = [5, 7, 10]
   \<and> p90Index 3 = 2
   \<and> Fin 10 \<in> set (queueSample isoDate jobsThreeWaits ''A'')
   \<and> Fin 10 = Fin (sort [10, 5, 7] ! p90Index 3)"
proof -
  have q: "queueSample isoDate jobsThreeWaits ''A'' = map Fin [10, 5, 7]"
    unfolding queueSample_def durationsOn_def dur_jobsThreeWaits by simp
  have m: "(''A'', \<lparr> mean = Fin (22 / 3), p90 = Fin 10, count = 3 \<rparr>)
           \<in> set [(''A'', \<lparr> mean = Fin (22 / 3), p90 = Fin 10, count = 3 \<rparr>)]"
    by simp
  have s: "sort [10, 5, 7 :: real] = [5, 7, 10]"
    by simp
  note t = estimateWaitTimes_p90 [OF wait_jobsThreeWaits m, where xs = "[10, 5, 7]"]
  have "p90 \<lparr> mean = Fin (22 / 3), p90 = Fin 10, count = 3 \<rparr>
        \<in> set (queueSample isoDate jobsThreeWaits ''A'')"
    using t by blast
  then have a: "Fin 10 \<in> set (queueSample isoDate jobsThreeWaits ''A'')"
    by simp
  have "p90 \<lparr> mean = Fin (22 / 3), p90 = Fin 10, count = 3 \<rparr>
        = Fin (sort [10, 5, 7] ! p90Index (length [10, 5, 7 :: real]))"
    using t q by blast
  then have b: "Fin 10 = Fin (sort [10, 5, 7] ! p90Index 3)"
    by (simp add: eval_nat_numeral)
  have i: "p90Index 3 = 2"
    by (simp add: p90Index_div)
  show ?thesis
    using wait_jobsThreeWaits q s i a b by (simp only: simp_thms)
qed

lemma dur_jobsNaNWait:
  "computeDurations isoDate jobsNaNWait =
    [\<lparr> d_job_id = ''n1'', d_backend = ''A'', d_backend_type = [], d_status = COMPLETED,
        queueSec = Fin 5, execSec = Fin 0 \<rparr>,
     \<lparr> d_job_id = ''n2'', d_backend = ''A'', d_backend_type = [], d_status = COMPLETED,
        queueSec = NaN, execSec = Fin 0 \<rparr>,
     \<lparr> d_job_id = ''n3'', d_backend = ''A'', d_backend_type = [], d_status = COMPLETED,
        queueSec = Fin 1, execSec = Fin 0 \<rparr>]"
  by (simp add: jobsNaNWait_def job_eval isoDate_eval parseInt_eval jsnum_eval)

text \<open>
  C6: the code departs from the claim on a sample that holds a NaN, which
  \<open>computeDurations\<close> produces for a job whose \<open>creation_time\<close> is not a date. The
  comparator \<^verbatim>\<open>(a, b) => a - b\<close> returns NaN whenever one of its arguments is NaN, which
  the sort reads as "equal": in the sample \<open>5, NaN, 1\<close> each element compares equal to
  its neighbour, the sort leaves the array as it is, and the element at index
  \<open>min (n - 1) (floor (n * 0.9)) = 2\<close> is \<open>1\<close>, the least wait of the sample and not its
  90th percentile. The value at that index of the sample in ascending order is not \<open>1\<close>
  wherever the NaN is placed.
\<close>

theorem estimateWaitTimes_p90_nan_sample:
  "queueSample isoDate jobsNaNWait ''A'' = [Fin 5, NaN, Fin 1]
   \<and> jsub NaN (Fin 5) = NaN \<and> jsub (Fin 1) NaN = NaN \<and> \<not> jgt NaN (Fin 0) \<and> \<not> jlt NaN (Fin 0)
   \<and> arraySort (\<lambda>a b. jsub a b) [Fin 5, NaN, Fin 1] = [Fin 5, NaN, Fin 1]
   \<and> p90Index 3 = 2
   \<and> estimateWaitTimesByBackend isoDate jobsNaNWait
       = Inr [(''A'', \<lparr> mean = NaN, p90 = Fin 1, count = 3 \<rparr>)]
   \<and> [NaN, Fin 1, Fin 5] ! p90Index 3 = Fin 5
   \<and> [Fin 1, NaN, Fin 5] ! p90Index 3 = Fin 5
   \<and> [Fin 1, Fin 5, NaN] ! p90Index 3 = NaN"
proof -
  have q: "queueSample isoDate jobsNaNWait ''A'' = [Fin 5, NaN, Fin 1]"
    unfolding queueSample_def durationsOn_def dur_jobsNaNWait by simp
  have c: "jsub NaN (Fin 5) = NaN" "jsub (Fin 1) NaN = NaN" "\<not> jgt NaN (Fin 0)"
    "\<not> jlt NaN (Fin 0)"
    by (simp_all add: jsnum_eval)
  have s: "arraySort (\<lambda>a b. jsub a b) [Fin 5, NaN, Fin 1] = [Fin 5, NaN, Fin 1]"
    by (simp add: arraySort_def jsnum_eval)
  have i: "p90Index 3 = 2"
    by (simp add: p90Index_div)
  have w: "estimateWaitTimesByBackend isoDate jobsNaNWait
       = Inr [(''A'', \<lparr> mean = NaN, p90 = Fin 1, count = 3 \<rparr>)]"
    unfolding estimateWaitTimesByBackend_def dur_jobsNaNWait
    by (simp add: entries_A waitStatsOf_def arraySort_def p90Index_def [symmetric] p90Index_div
        objectPrototypeKeys_def jsnum_eval)
  have n: "[NaN, Fin 1, Fin 5] ! p90Index 3 = Fin 5" "[Fin 1, NaN, Fin 5] ! p90Index 3 = Fin 5"
    "[Fin 1, Fin 5, NaN] ! p90Index 3 = NaN"
    by (simp_all add: i)
  show ?thesis
    using q c s i w n by (simp only: simp_thms)
qed

section \<open>Anomaly detector: stuck jobs and failure clusters\<close>
















lemma jadd_NaN_right [simp]: "jadd a NaN = NaN"
  by (cases a) simp_all

lemma jdiv_NaN_right [simp]: "jdiv a NaN = NaN"
  by (cases a) simp_all



















lemma addR_NaN [simp]: "addR rnd NaN b = NaN" "addR rnd a NaN = NaN"
  by (cases b, simp_all add: addR_def) (cases a, simp_all add: addR_def)

lemma divR_NaN [simp]: "divR rnd NaN b = NaN"
  by (cases b) (simp_all add: divR_def)







lemma sqrt_9 [simp]: "sqrt 9 = 3"
  by (rule real_sqrt_unique) simp_all








section \<open>Exceptions and non-negativity\<close>

lemma d_backend_durationOf [simp]: "d_backend (durationOf parseDate j) = backendOf j"
  by (simp add: durationOf_def Let_def)

lemma group_throws_iff:
  "(\<exists>e. groupQueueSec [] (computeDurations parseDate jobs) = Inl e)
   \<longleftrightarrow> (\<exists>j \<in> set jobs. creation_time j \<noteq> [] \<and> backendOf j \<in> set objectPrototypeKeys)"
  unfolding groupQueueSec_Inl by (auto simp: computeDurations_def)

text \<open>
  The two functions that group by backend in a plain object throw exactly when a job with
  a non-empty \<open>creation_time\<close> has a backend named like a property of
  \<^verbatim>\<open>Object.prototype\<close>; \<open>computeDurations\<close> and \<open>recommendBackends\<close> always return.
\<close>

theorem grouping_functions_throw_iff:
  "((\<exists>e. estimateWaitTimesByBackend parseDate jobs = Inl e)
      \<longleftrightarrow> (\<exists>j \<in> set jobs. creation_time j \<noteq> [] \<and> backendOf j \<in> set objectPrototypeKeys))
   \<and> ((\<exists>e. detectAnomalies parseDate jobs = Inl e)
      \<longleftrightarrow> (\<exists>j \<in> set jobs. creation_time j \<noteq> [] \<and> backendOf j \<in> set objectPrototypeKeys))"
proof -
  have "(\<exists>e. estimateWaitTimesByBackend parseDate jobs = Inl e)
        \<longleftrightarrow> (\<exists>e. groupQueueSec [] (computeDurations parseDate jobs) = Inl e)"
    by (auto simp: estimateWaitTimesByBackend_def split: sum.splits)
  moreover have "(\<exists>e. detectAnomalies parseDate jobs = Inl e)
        \<longleftrightarrow> (\<exists>e. groupQueueSec [] (computeDurations parseDate jobs) = Inl e)"
    by (auto simp: detectAnomalies_def Let_def split: sum.splits)
  ultimately show ?thesis
    by (simp only: group_throws_iff simp_thms)
qed

text \<open>
  C9 fails on the code. For a job on the backend \<open>constructor\<close>,
  \<^verbatim>\<open>byBackend[d.backend]\<close> is the inherited \<^verbatim>\<open>Object\<close> function, so no array is
  created and \<^verbatim>\<open>byBackend[d.backend].push\<close> is not a function:
  \<open>estimateWaitTimesByBackend\<close> and \<open>detectAnomalies\<close> throw a \<^verbatim>\<open>TypeError\<close>.
  \<open>computeDurations\<close> and \<open>recommendBackends\<close>, which group with \<^verbatim>\<open>filter\<close>, return on
  the same input.
\<close>

theorem prototype_backend_throws:
  "estimateWaitTimesByBackend isoDate jobsConstructor = Inl TypeError
   \<and> detectAnomalies isoDate jobsConstructor = Inl TypeError
   \<and> map s_backend (recommendBackends isoDate jobsConstructor defaultWeights) = [''constructor'']
   \<and> map d_backend (computeDurations isoDate jobsConstructor) = [''constructor'']"
proof -
  have d: "computeDurations isoDate jobsConstructor =
    [\<lparr> d_job_id = ''c1'', d_backend = ''constructor'', d_backend_type = [],
        d_status = COMPLETED, queueSec = Fin 0, execSec = Fin 0 \<rparr>]"
    by (simp add: jobsConstructor_def job_eval isoDate_eval jsnum_eval)
  have g: "groupQueueSec [] (computeDurations isoDate jobsConstructor) = Inl TypeError"
    unfolding d by (simp add: objectPrototypeKeys_def)
  have r: "map s_backend (recommendBackends isoDate jobsConstructor defaultWeights)
           = [''constructor'']"
    unfolding recommendBackends_def recommendFrom_eq
    by (simp add: statsList_def backendsOf_def arrayFromSet_def jobsConstructor_def mkJob_def
        backendOf_def arraySort_def)
  show ?thesis
    using g r by (simp add: estimateWaitTimesByBackend_def detectAnomalies_def Let_def d)
qed

lemma clamp_Fin [simp]: "mathMax [Fin 0, Fin r] = Fin (max 0 r)"
  by (simp add: mathMax_def)

lemma clamp_NaN [simp]: "mathMax [Fin 0, NaN] = NaN"
  by (simp add: mathMax_def max2_def)

lemma parseInt10_cases:
  "parseInt10 s = NaN \<or> parseInt10 s = PInf \<or> parseInt10 s = NInf \<or> (\<exists>r. parseInt10 s = Fin r)"
  by (simp add: parseInt10_def Let_def)

lemma durationOf_values:
  "nonNegOrNaN (queueSec (durationOf parseDate j)) \<and> nonNegOrNaN (execSec (durationOf parseDate j))"
proof -
  obtain startMs where s: "getTime parseDate (creation_time j) = startMs"
    and sc: "startMs = NaN \<or> (\<exists>r. startMs = Fin r)"
    by (auto simp: getTime_def split: option.splits)
  obtain endMs where e: "(case end_time j of None \<Rightarrow> NaN
                  | Some s \<Rightarrow> if s \<noteq> [] then getTime parseDate s else NaN) = endMs"
    and ec: "endMs = NaN \<or> (\<exists>r. endMs = Fin r)"
    by (auto simp: getTime_def split: option.splits)
  obtain execMs where x: "(case execution_time j of None \<Rightarrow> NaN
                  | Some s \<Rightarrow> if s \<noteq> [] then parseInt10 s else NaN) = execMs"
    and xc: "execMs = NaN \<or> execMs = PInf \<or> execMs = NInf \<or> (\<exists>r. execMs = Fin r)"
    using parseInt10_cases by (auto split: option.splits)
  show ?thesis
    unfolding durationOf_def s e x
    using sc ec xc
    by (auto simp: Let_def nonNegOrNaN_def jge_def jsub_def)
qed

lemma durationOf_nonneg:
  assumes "parseDate (creation_time j) = Some t"
  shows "jge (queueSec (durationOf parseDate j)) (Fin 0)
       \<and> jge (execSec (durationOf parseDate j)) (Fin 0)"
proof -
  have s: "getTime parseDate (creation_time j) = Fin (of_int t)"
    by (simp add: getTime_def assms)
  obtain endMs where e: "(case end_time j of None \<Rightarrow> NaN
                  | Some s \<Rightarrow> if s \<noteq> [] then getTime parseDate s else NaN) = endMs"
    and ec: "endMs = NaN \<or> (\<exists>r. endMs = Fin r)"
    by (auto simp: getTime_def split: option.splits)
  obtain execMs where x: "(case execution_time j of None \<Rightarrow> NaN
                  | Some s \<Rightarrow> if s \<noteq> [] then parseInt10 s else NaN) = execMs"
    and xc: "execMs = NaN \<or> execMs = PInf \<or> execMs = NInf \<or> (\<exists>r. execMs = Fin r)"
    using parseInt10_cases by (auto split: option.splits)
  show ?thesis
    unfolding durationOf_def s e x
    using ec xc
    by (auto simp: Let_def jge_def jsub_def)
qed

text \<open>
  Non-negativity of the durations, as far as it holds: every \<open>queueSec\<close> and \<open>execSec\<close>
  is either NaN or a finite number that is at least 0, and when the \<open>creation_time\<close> of
  every kept job parses, all of them are at least 0.
\<close>

theorem computeDurations_nonneg_or_NaN:
  "(\<forall>d \<in> set (computeDurations parseDate jobs).
      nonNegOrNaN (queueSec d) \<and> nonNegOrNaN (execSec d))
   \<and> ((\<forall>j \<in> set jobs. creation_time j \<noteq> [] \<longrightarrow> parseDate (creation_time j) \<noteq> None)
        \<longrightarrow> (\<forall>d \<in> set (computeDurations parseDate jobs).
               jge (queueSec d) (Fin 0) \<and> jge (execSec d) (Fin 0)))"
proof -
  have a: "\<forall>d \<in> set (computeDurations parseDate jobs).
      nonNegOrNaN (queueSec d) \<and> nonNegOrNaN (execSec d)"
    using durationOf_values by (auto simp: computeDurations_def)
  have b: "jge (queueSec d) (Fin 0) \<and> jge (execSec d) (Fin 0)"
    if p: "\<forall>j \<in> set jobs. creation_time j \<noteq> [] \<longrightarrow> parseDate (creation_time j) \<noteq> None"
      and d: "d \<in> set (computeDurations parseDate jobs)" for d
  proof -
    obtain j where j: "j \<in> set jobs" "creation_time j \<noteq> []" "d = durationOf parseDate j"
      using d by (auto simp: computeDurations_def)
    then obtain t where "parseDate (creation_time j) = Some t"
      using p by auto
    then show ?thesis
      using durationOf_nonneg j(3) by blast
  qed
  show ?thesis
    using a b by blast
qed

theorem computeDurations_nonneg_or_NaN_witness:
  "list_all (\<lambda>j. creation_time j \<noteq> [] \<and> isoDate (creation_time j) \<noteq> None) jobsThreeWaits
   \<and> map queueSec (computeDurations isoDate jobsThreeWaits) = [Fin 10, Fin 5, Fin 7]
   \<and> list_all (\<lambda>d. jge (queueSec d) (Fin 0) \<and> jge (execSec d) (Fin 0))
        (computeDurations isoDate jobsThreeWaits)"
proof -
  have p: "list_all (\<lambda>j. creation_time j \<noteq> [] \<and> isoDate (creation_time j) \<noteq> None) jobsThreeWaits"
    by (simp add: jobsThreeWaits_def mkJob_def epoch_def isoDate_eval)
  then have "\<forall>j \<in> set jobsThreeWaits. creation_time j \<noteq> [] \<longrightarrow> isoDate (creation_time j) \<noteq> None"
    by (simp add: list_all_iff)
  then have "\<forall>d \<in> set (computeDurations isoDate jobsThreeWaits).
               jge (queueSec d) (Fin 0) \<and> jge (execSec d) (Fin 0)"
    using computeDurations_nonneg_or_NaN [of isoDate jobsThreeWaits] by blast
  then have "list_all (\<lambda>d. jge (queueSec d) (Fin 0) \<and> jge (execSec d) (Fin 0))
        (computeDurations isoDate jobsThreeWaits)"
    by (simp add: list_all_iff)
  moreover have "map queueSec (computeDurations isoDate jobsThreeWaits) = [Fin 10, Fin 5, Fin 7]"
    unfolding dur_jobsThreeWaits by simp
  ultimately show ?thesis
    using p by (simp only: simp_thms)
qed

end
